theory Spec2Isabelle
  imports Main "HOL-Library.Word" "HOL-Library.Signed_Division"
begin

section \<open>Machine integers\<close>

text \<open>
  Go's \<open>int64\<close> is a 64-bit word: \<open>+\<close>, \<open>-\<close> and \<open>*\<close> wrap around, comparisons are
  the signed ones (\<open>\<le>s\<close>, \<open><s\<close>), and \<open>/\<close> truncates towards zero.
\<close>

type_synonym int64 = "64 word"

definition int64_div :: "int64 \<Rightarrow> int64 \<Rightarrow> int64" where
  "int64_div a b = word_of_int (sint a sdiv sint b)"

section \<open>The store (internal/store/store.go)\<close>

definition ShardCount :: nat where
  "ShardCount = 64"

definition MaxVersions :: nat where
  "MaxVersions = 10"

record Value =
  Data :: string
  Timestamp :: int64
  TTL :: int64

record KeyHistory =
  Versions :: "Value list"

record Shard =
  data :: "string \<rightharpoonup> KeyHistory"

text \<open>The TTL wheel: a map from key to expiration timestamp.\<close>

record TTLWheel =
  entries :: "string \<rightharpoonup> int64"

record Store =
  shards :: "nat \<Rightarrow> Shard"
  ttlWheel :: TTLWheel

definition NewTTLWheel :: TTLWheel where
  "NewTTLWheel = \<lparr>entries = Map.empty\<rparr>"

definition TTLWheel_Add :: "TTLWheel \<Rightarrow> string \<Rightarrow> int64 \<Rightarrow> TTLWheel" where
  "TTLWheel_Add tw key expiration = tw\<lparr>entries := (entries tw)(key \<mapsto> expiration)\<rparr>"

definition TTLWheel_Remove :: "TTLWheel \<Rightarrow> string \<Rightarrow> TTLWheel" where
  "TTLWheel_Remove tw key = tw\<lparr>entries := (entries tw)(key := None)\<rparr>"

text \<open>
  \<open>GetExpired\<close> ranges over the map in Go's unspecified iteration order, collects every
  key whose expiration is at or before \<open>now\<close> and deletes it from the map. The keys
  returned are modelled as a set, the map after the loop entry by entry.
\<close>

definition TTLWheel_GetExpired :: "TTLWheel \<Rightarrow> int64 \<Rightarrow> string set \<times> TTLWheel" where
  "TTLWheel_GetExpired tw now =
     ({key. case entries tw key of None \<Rightarrow> False | Some expiration \<Rightarrow> expiration \<le>s now},
      tw\<lparr>entries := (\<lambda>key. case entries tw key of
                                None \<Rightarrow> None
                              | Some expiration \<Rightarrow> if expiration \<le>s now then None else Some expiration)\<rparr>)"

definition NewStore :: Store where
  "NewStore = \<lparr>shards = (\<lambda>i. \<lparr>data = Map.empty\<rparr>), ttlWheel = NewTTLWheel\<rparr>"

text \<open>
  \<open>hash\<close> takes the first eight bytes of the key's SHA-256 digest as a big-endian
  unsigned 64-bit number, modulo \<open>ShardCount\<close>. The digest is the Go standard library's;
  the function from a key to those eight bytes is the parameter \<open>sum64\<close> of every
  operation below.
\<close>

definition hash :: "(string \<Rightarrow> 64 word) \<Rightarrow> string \<Rightarrow> nat" where
  "hash sum64 key = unat (sum64 key mod of_nat ShardCount)"

definition getShard :: "(string \<Rightarrow> 64 word) \<Rightarrow> Store \<Rightarrow> string \<Rightarrow> Shard" where
  "getShard sum64 s key = shards s (hash sum64 key)"

text \<open>
  Every operation that reads the clock (\<open>time.Now().UnixMilli()\<close>) takes the reading as
  its argument \<open>now\<close>. An operation that changes the store returns the new store.
\<close>

definition Store_Set ::
  "(string \<Rightarrow> 64 word) \<Rightarrow> Store \<Rightarrow> int64 \<Rightarrow> string \<Rightarrow> string \<Rightarrow> int64 \<Rightarrow> Store" where
  "Store_Set sum64 s now key val ttlMs =
     (let shard = getShard sum64 s key;
          expiration = (if 0 <s ttlMs then now + ttlMs else 0);
          wheel = (if 0 <s ttlMs then TTLWheel_Add (ttlWheel s) key expiration else ttlWheel s);
          v = \<lparr>Data = val, Timestamp = now, TTL = expiration\<rparr>;
          history = (case data shard key of None \<Rightarrow> \<lparr>Versions = []\<rparr> | Some h \<Rightarrow> h);
          versions = Versions history @ [v];
          versions' = (if length versions > MaxVersions
                       then drop (length versions - MaxVersions) versions else versions)
      in s\<lparr>shards := (shards s)(hash sum64 key :=
              shard\<lparr>data := (data shard)(key \<mapsto> history\<lparr>Versions := versions'\<rparr>)\<rparr>),
           ttlWheel := wheel\<rparr>)"

text \<open>
  The loop of \<open>GetAt\<close> walks the versions from the last index down to 0;
  \<open>scanVersions\<close> is that loop on the reversed slice. The result is Go's pair
  \<open>(value, found)\<close>.
\<close>

fun scanVersions :: "Value list \<Rightarrow> int64 \<Rightarrow> string \<times> bool" where
  "scanVersions [] timestamp = ('''', False)"
| "scanVersions (version # older) timestamp =
     (if Timestamp version \<le>s timestamp
      then (if 0 <s TTL version \<and> TTL version \<le>s timestamp then ('''', False)
            else (Data version, True))
      else scanVersions older timestamp)"

definition Store_GetAt ::
  "(string \<Rightarrow> 64 word) \<Rightarrow> Store \<Rightarrow> string \<Rightarrow> int64 \<Rightarrow> string \<times> bool" where
  "Store_GetAt sum64 s key timestamp =
     (case data (getShard sum64 s key) key of
        None \<Rightarrow> ('''', False)
      | Some history \<Rightarrow> scanVersions (rev (Versions history)) timestamp)"

definition Store_Get ::
  "(string \<Rightarrow> 64 word) \<Rightarrow> Store \<Rightarrow> int64 \<Rightarrow> string \<Rightarrow> string \<times> bool" where
  "Store_Get sum64 s now key = Store_GetAt sum64 s key now"

definition Store_Delete :: "(string \<Rightarrow> 64 word) \<Rightarrow> Store \<Rightarrow> string \<Rightarrow> Store \<times> bool" where
  "Store_Delete sum64 s key =
     (let shard = getShard sum64 s key
      in case data shard key of
           Some _ \<Rightarrow>
             (s\<lparr>shards := (shards s)(hash sum64 key := shard\<lparr>data := (data shard)(key := None)\<rparr>),
                ttlWheel := TTLWheel_Remove (ttlWheel s) key\<rparr>, True)
         | None \<Rightarrow> (s, False))"

definition Store_Expire ::
  "(string \<Rightarrow> 64 word) \<Rightarrow> Store \<Rightarrow> int64 \<Rightarrow> string \<Rightarrow> int64 \<Rightarrow> Store \<times> bool" where
  "Store_Expire sum64 s now key ttlMs =
     (let shard = getShard sum64 s key
      in case data shard key of
           None \<Rightarrow> (s, False)
         | Some history \<Rightarrow>
             if length (Versions history) = 0 then (s, False)
             else
               (let expiration = now + ttlMs;
                    i = length (Versions history) - 1;
                    latestVersion = (Versions history ! i)\<lparr>TTL := expiration\<rparr>;
                    history' = history\<lparr>Versions := (Versions history)[i := latestVersion]\<rparr>
                in (s\<lparr>shards := (shards s)(hash sum64 key :=
                         shard\<lparr>data := (data shard)(key \<mapsto> history')\<rparr>),
                      ttlWheel := TTLWheel_Add (ttlWheel s) key expiration\<rparr>, True)))"

definition Store_TTL :: "(string \<Rightarrow> 64 word) \<Rightarrow> Store \<Rightarrow> int64 \<Rightarrow> string \<Rightarrow> int64" where
  "Store_TTL sum64 s now key =
     (case data (getShard sum64 s key) key of
        None \<Rightarrow> - 2
      | Some history \<Rightarrow>
          if length (Versions history) = 0 then - 2
          else
            (let latestVersion = Versions history ! (length (Versions history) - 1)
             in if TTL latestVersion = 0 then - 1
                else if TTL latestVersion \<le>s now then - 2
                else TTL latestVersion - now))"

text \<open>
  \<open>History\<close> sorts a copy of the chain with the Go standard library's \<open>sort.Slice\<close>,
  which is not part of this repository. On a slice of at most 12 elements
  \<open>sort.Slice\<close> runs an insertion sort: each element in turn moves left past every
  element that the comparison function puts after it, and stops at the first one it does
  not. A chain never holds more than \<open>MaxVersions\<close> versions. \<open>insertLeft\<close> is
  the inner loop, on the sorted prefix read from its right end.
\<close>

fun insertLeft :: "('a \<Rightarrow> 'a \<Rightarrow> bool) \<Rightarrow> 'a \<Rightarrow> 'a list \<Rightarrow> 'a list" where
  "insertLeft lessFn x [] = [x]"
| "insertLeft lessFn x (p # ps) =
     (if lessFn x p then p # insertLeft lessFn x ps else x # p # ps)"

definition sort_Slice :: "('a \<Rightarrow> 'a \<Rightarrow> bool) \<Rightarrow> 'a list \<Rightarrow> 'a list" where
  "sort_Slice lessFn xs = rev (foldl (\<lambda>prefix x. insertLeft lessFn x prefix) [] xs)"

definition Store_History :: "(string \<Rightarrow> 64 word) \<Rightarrow> Store \<Rightarrow> string \<Rightarrow> int \<Rightarrow> Value list" where
  "Store_History sum64 s key limit =
     (case data (getShard sum64 s key) key of
        None \<Rightarrow> []
      | Some history \<Rightarrow>
          (let versions = sort_Slice (\<lambda>vi vj. Timestamp vj <s Timestamp vi) (Versions history)
           in if 0 < limit \<and> limit < int (length versions) then take (nat limit) versions
              else versions))"

text \<open>
  \<open>expireKeys\<close> visits every key that \<open>GetExpired\<close> returned and deletes it from its
  shard when the tail of its chain has a positive expiry at or before \<open>now\<close>. Each
  visit touches one key of one shard, so the store after the loop is given key by key.
\<close>

definition expireKeys :: "(string \<Rightarrow> 64 word) \<Rightarrow> Store \<Rightarrow> int64 \<Rightarrow> Store" where
  "expireKeys sum64 s now =
     (let (expiredKeys, wheel) = TTLWheel_GetExpired (ttlWheel s) now
      in s\<lparr>shards := (\<lambda>i. (shards s i)\<lparr>data := (\<lambda>key.
              case data (shards s i) key of
                None \<Rightarrow> None
              | Some history \<Rightarrow>
                  if key \<in> expiredKeys \<and> hash sum64 key = i \<and> length (Versions history) > 0 \<and>
                     0 <s TTL (Versions history ! (length (Versions history) - 1)) \<and>
                     TTL (Versions history ! (length (Versions history) - 1)) \<le>s now
                  then None else Some history)\<rparr>),
           ttlWheel := wheel\<rparr>)"

section \<open>The wire codec (internal/proto/resp.go)\<close>

text \<open>
  \<open>RESPType\<close> is a byte, and the five types are the five tag bytes. A value is the
  Go struct with its five fields; a field that a struct literal leaves out has its zero
  value.
\<close>

type_synonym RESPType = char

abbreviation SimpleString :: RESPType where "SimpleString \<equiv> CHR ''+''"
abbreviation Error :: RESPType where "Error \<equiv> CHR ''-''"
abbreviation Integer :: RESPType where "Integer \<equiv> CHR '':''"
abbreviation BulkString :: RESPType where "BulkString \<equiv> CHR ''$''"
abbreviation Array :: RESPType where "Array \<equiv> CHR ''*''"

datatype RESPValue =
  RESPValue (Type: RESPType) (String: string) (Int: int64) (Array': "RESPValue list") (Null: bool)

abbreviation CR :: char where "CR \<equiv> CHR 0x0D"
abbreviation LF :: char where "LF \<equiv> CHR 0x0A"

datatype error =
    EOF
  | ErrUnexpectedEOF
  | UnknownRESPType char
  | InvalidInteger string
  | InvalidBulkStringLength string
  | InvalidArrayLength string
  | MakeSlicePanic

subsection \<open>strconv and fmt\<close>

text \<open>
  The functions of the Go standard library that the codec and the handlers call.
  \<open>strconv.ParseInt(s, 10, 64)\<close> and \<open>strconv.Atoi\<close> accept an optional sign
  followed by one or more decimal digits and fail on anything else and on a value
  outside 64 bits; Go's \<open>int\<close> has 64 bits. \<open>formatInt\<close> is the verb \<open>%d\<close> of
  \<open>fmt.Fprintf\<close>.
\<close>

definition isDigit :: "char \<Rightarrow> bool" where
  "isDigit c = (48 \<le> (of_char c :: nat) \<and> (of_char c :: nat) \<le> 57)"

definition digitVal :: "char \<Rightarrow> nat" where
  "digitVal c = of_char c - 48"

definition digitChar :: "nat \<Rightarrow> char" where
  "digitChar d = char_of (48 + d)"

definition digitsValue :: "string \<Rightarrow> nat" where
  "digitsValue ds = foldl (\<lambda>acc c. acc * 10 + digitVal c) 0 ds"

definition parseSigned :: "string \<Rightarrow> int option" where
  "parseSigned s =
     (let neg = (s \<noteq> [] \<and> hd s = CHR ''-'');
          ds = (if s \<noteq> [] \<and> (hd s = CHR ''+'' \<or> hd s = CHR ''-'') then tl s else s)
      in if ds = [] \<or> \<not> list_all isDigit ds then None
         else (let n = int (digitsValue ds); v = (if neg then - n else n)
               in if v < - (2 ^ 63) \<or> 2 ^ 63 \<le> v then None else Some v))"

definition ParseInt :: "string \<Rightarrow> int64 option" where
  "ParseInt s = map_option word_of_int (parseSigned s)"

definition Atoi :: "string \<Rightarrow> int option" where
  "Atoi s = parseSigned s"

fun formatNat :: "nat \<Rightarrow> string" where
  "formatNat n = (if n < 10 then [digitChar n] else formatNat (n div 10) @ [digitChar (n mod 10)])"

declare formatNat.simps [simp del]

definition formatInt :: "int \<Rightarrow> string" where
  "formatInt i = (if i < 0 then CHR ''-'' # formatNat (nat (- i)) else formatNat (nat i))"

subsection \<open>The writer\<close>

text \<open>
  Every write function returns the bytes it writes; the underlying writer does not fail.
  \<open>WriteValue\<close> fails on a type byte that is none of the five, and the bytes written
  before the failure are not kept.
\<close>

definition WriteSimpleString :: "string \<Rightarrow> string" where
  "WriteSimpleString s = ''+'' @ s @ [CR, LF]"

definition WriteError :: "string \<Rightarrow> string" where
  "WriteError s = ''-'' @ s @ [CR, LF]"

definition WriteInteger :: "int64 \<Rightarrow> string" where
  "WriteInteger i = '':'' @ formatInt (sint i) @ [CR, LF]"

definition WriteBulkString :: "string \<Rightarrow> string" where
  "WriteBulkString s = ''$'' @ formatInt (int (length s)) @ [CR, LF] @ s @ [CR, LF]"

definition WriteNullBulkString :: string where
  "WriteNullBulkString = ''$-1'' @ [CR, LF]"

definition WriteNullArray :: string where
  "WriteNullArray = ''*-1'' @ [CR, LF]"

fun WriteValue :: "RESPValue \<Rightarrow> error + string"
  and WriteArray :: "RESPValue list \<Rightarrow> error + string"
  and WriteArrayLoop :: "RESPValue list \<Rightarrow> error + string"
where
  "WriteValue (RESPValue ty str i arr null) =
     (if ty = SimpleString then Inr (WriteSimpleString str)
      else if ty = Error then Inr (WriteError str)
      else if ty = Integer then Inr (WriteInteger i)
      else if ty = BulkString then
        (if null then Inr WriteNullBulkString else Inr (WriteBulkString str))
      else if ty = Array then
        (if null then Inr WriteNullArray else WriteArray arr)
      else Inl (UnknownRESPType ty))"
| "WriteArray arr =
     (case WriteArrayLoop arr of
        Inl err \<Rightarrow> Inl err
      | Inr out \<Rightarrow> Inr (''*'' @ formatInt (int (length arr)) @ [CR, LF] @ out))"
| "WriteArrayLoop [] = Inr []"
| "WriteArrayLoop (val # vals) =
     (case WriteValue val of
        Inl err \<Rightarrow> Inl err
      | Inr out \<Rightarrow>
          (case WriteArrayLoop vals of
             Inl err \<Rightarrow> Inl err
           | Inr out' \<Rightarrow> Inr (out @ out')))"

subsection \<open>The reader\<close>

text \<open>
  The buffered reader is the sequence of bytes not yet consumed. Every read function
  returns either an error or its result with the bytes that remain. \<open>ReadString\<close>
  returns the bytes up to and including the first delimiter, \<open>ReadFull\<close> exactly
  \<open>n\<close> bytes. In \<open>readBulkString\<close> the slice of \<open>length + 2\<close> bytes cannot be
  made when that sum overflows Go's \<open>int\<close>: the program panics.
\<close>

fun ReadString :: "char \<Rightarrow> string \<Rightarrow> (string \<times> string) option" where
  "ReadString delim [] = None"
| "ReadString delim (c # cs) =
     (if c = delim then Some ([c], cs)
      else (case ReadString delim cs of
              None \<Rightarrow> None
            | Some (line, rest) \<Rightarrow> Some (c # line, rest)))"

definition ReadFull :: "nat \<Rightarrow> string \<Rightarrow> error + (string \<times> string)" where
  "ReadFull n inp =
     (if n \<le> length inp then Inr (take n inp, drop n inp)
      else if inp = [] then Inl EOF else Inl ErrUnexpectedEOF)"

definition readLine :: "string \<Rightarrow> error + (string \<times> string)" where
  "readLine inp =
     (case ReadString LF inp of
        None \<Rightarrow> Inl EOF
      | Some (line, rest) \<Rightarrow>
          if length line \<ge> 2 \<and> drop (length line - 2) line = [CR, LF]
          then Inr (take (length line - 2) line, rest)
          else if length line \<ge> 1 \<and> drop (length line - 1) line = [LF]
          then Inr (take (length line - 1) line, rest)
          else Inr (line, rest))"

definition readSimpleString :: "string \<Rightarrow> error + (RESPValue \<times> string)" where
  "readSimpleString inp =
     (case readLine inp of
        Inl err \<Rightarrow> Inl err
      | Inr (line, rest) \<Rightarrow> Inr (RESPValue SimpleString line 0 [] False, rest))"

definition readError :: "string \<Rightarrow> error + (RESPValue \<times> string)" where
  "readError inp =
     (case readLine inp of
        Inl err \<Rightarrow> Inl err
      | Inr (line, rest) \<Rightarrow> Inr (RESPValue Error line 0 [] False, rest))"

definition readInteger :: "string \<Rightarrow> error + (RESPValue \<times> string)" where
  "readInteger inp =
     (case readLine inp of
        Inl err \<Rightarrow> Inl err
      | Inr (line, rest) \<Rightarrow>
          (case ParseInt line of
             None \<Rightarrow> Inl (InvalidInteger line)
           | Some val \<Rightarrow> Inr (RESPValue Integer [] val [] False, rest)))"

definition readBulkString :: "string \<Rightarrow> error + (RESPValue \<times> string)" where
  "readBulkString inp =
     (case readLine inp of
        Inl err \<Rightarrow> Inl err
      | Inr (line, rest) \<Rightarrow>
          (case Atoi line of
             None \<Rightarrow> Inl (InvalidBulkStringLength line)
           | Some len \<Rightarrow>
               if len = - 1 then Inr (RESPValue BulkString [] 0 [] True, rest)
               else if len < 0 then Inl (InvalidBulkStringLength (formatInt len))
               else if 2 ^ 63 \<le> len + 2 then Inl MakeSlicePanic
               else (case ReadFull (nat (len + 2)) rest of
                       Inl err \<Rightarrow> Inl err
                     | Inr (bytes, rest') \<Rightarrow>
                         Inr (RESPValue BulkString (take (nat len) bytes) 0 [] False, rest'))))"

section \<open>The command handlers (internal/server/dispatch.go)\<close>

text \<open>
  A handler takes the store and the command's arguments and returns the response; a
  handler that writes also returns the new store.
\<close>

definition handleExpire ::
  "(string \<Rightarrow> 64 word) \<Rightarrow> Store \<Rightarrow> int64 \<Rightarrow> string list \<Rightarrow> RESPValue \<times> Store" where
  "handleExpire sum64 s now args =
     (if length args \<noteq> 2
      then (RESPValue Error ''ERR wrong number of arguments for 'expire' command'' 0 [] False, s)
      else
        (let key = args ! 0
         in case ParseInt (args ! 1) of
              None \<Rightarrow> (RESPValue Error ''ERR value is not an integer or out of range'' 0 [] False, s)
            | Some ttl \<Rightarrow>
                (let (s', ok) = Store_Expire sum64 s now key (ttl * 1000)
                 in if ok then (RESPValue Integer [] 1 [] False, s')
                    else (RESPValue Integer [] 0 [] False, s'))))"

definition handleTTL :: "(string \<Rightarrow> 64 word) \<Rightarrow> Store \<Rightarrow> int64 \<Rightarrow> string list \<Rightarrow> RESPValue" where
  "handleTTL sum64 s now args =
     (if length args \<noteq> 1
      then RESPValue Error ''ERR wrong number of arguments for 'ttl' command'' 0 [] False
      else
        (let key = args ! 0;
             ttlMs = Store_TTL sum64 s now key;
             ttlSeconds = int64_div ttlMs 1000
         in RESPValue Integer [] ttlSeconds [] False))"

definition handleHist :: "(string \<Rightarrow> 64 word) \<Rightarrow> Store \<Rightarrow> string list \<Rightarrow> RESPValue" where
  "handleHist sum64 s args =
     (if length args < 1 \<or> length args > 2
      then RESPValue Error ''ERR wrong number of arguments for 'hist' command'' 0 [] False
      else
        (let key = args ! 0;
             limit = (if length args = 2
                      then (case Atoi (args ! 1) of
                              None \<Rightarrow> None
                            | Some l \<Rightarrow> if l < 0 then None else Some l)
                      else Some 0)
         in case limit of
              None \<Rightarrow> RESPValue Error ''ERR value is not a valid limit'' 0 [] False
            | Some limit \<Rightarrow>
                (let history = Store_History sum64 s key limit;
                     result = concat (map (\<lambda>version.
                                [RESPValue Integer [] (Timestamp version) [] False,
                                 RESPValue BulkString (Data version) 0 [] False]) history)
                 in RESPValue Array [] 0 result False)))"

section \<open>Sequences of writes\<close>

text \<open>
  \<open>Sets\<close> runs a list of writes to one key, each with its clock reading, its value
  and its TTL. \<open>written\<close> is the version one write appends, \<open>latest\<close> the
  retention of the most recent \<open>MaxVersions\<close> versions, and \<open>chainOf\<close> the
  chain of a key, empty when the key is absent.
\<close>

fun Sets :: "(string \<Rightarrow> 64 word) \<Rightarrow> Store \<Rightarrow> string \<Rightarrow> (int64 \<times> string \<times> int64) list \<Rightarrow> Store" where
  "Sets sum64 s key [] = s"
| "Sets sum64 s key ((now, val, ttlMs) # writes) =
     Sets sum64 (Store_Set sum64 s now key val ttlMs) key writes"

text \<open>
  The snapshot read as the specification words it: select the last version of the chain
  written at or before \<open>ts\<close>; not found when there is none or when the selected
  version has a positive expiry at or before \<open>ts\<close>.
\<close>

definition GetAt_spec :: "Value list \<Rightarrow> int64 \<Rightarrow> string \<times> bool" where
  "GetAt_spec chain ts =
     (let candidates = filter (\<lambda>v. Timestamp v \<le>s ts) chain
      in if candidates = [] then ('''', False)
         else (let selected = last candidates
               in if 0 <s TTL selected \<and> TTL selected \<le>s ts then ('''', False)
                  else (Data selected, True)))"

definition written :: "int64 \<times> string \<times> int64 \<Rightarrow> Value" where
  "written w = (case w of (now, val, ttlMs) \<Rightarrow>
     \<lparr>Data = val, Timestamp = now, TTL = (if 0 <s ttlMs then now + ttlMs else 0)\<rparr>)"

definition latest :: "'a list \<Rightarrow> 'a list" where
  "latest xs = drop (length xs - MaxVersions) xs"

definition chainOf :: "(string \<Rightarrow> 64 word) \<Rightarrow> Store \<Rightarrow> string \<Rightarrow> Value list" where
  "chainOf sum64 s key = (case data (getShard sum64 s key) key of None \<Rightarrow> [] | Some h \<Rightarrow> Versions h)"

definition MinInt64 :: int64 where
  "MinInt64 = - 9223372036854775808"

abbreviation noTTL :: "int64 \<times> string \<Rightarrow> int64 \<times> string \<times> int64" where
  "noTTL \<equiv> (\<lambda>(t, v). (t, v, 0))"

text \<open>The comparison function that \<open>History\<close> hands to \<open>sort.Slice\<close>.\<close>

abbreviation newerFirst :: "Value \<Rightarrow> Value \<Rightarrow> bool" where
  "newerFirst \<equiv> (\<lambda>vi vj. Timestamp vj <s Timestamp vi)"

text \<open>Fifteen writes of the values \<open>v1\<close> to \<open>v15\<close> without TTL, at the given clock readings.\<close>

definition fifteenWrites :: "int64 list \<Rightarrow> (int64 \<times> string \<times> int64) list" where
  "fifteenWrites clock =
     zip clock (map (\<lambda>val. (val, 0))
       [''v1'', ''v2'', ''v3'', ''v4'', ''v5'', ''v6'', ''v7'', ''v8'', ''v9'', ''v10'',
        ''v11'', ''v12'', ''v13'', ''v14'', ''v15''])"

section \<open>Sequences of store operations\<close>

text \<open>
  The operations that change the store, each with the clock reading it runs at:
  \<open>Set\<close>, \<open>Delete\<close>, \<open>Expire\<close> and one round of the background expirer.
  \<open>run\<close> applies a list of them in order. \<open>wheelTracksTail\<close> says of a store
  that every key with an entry in the TTL wheel has a non-empty chain whose tail carries
  either that expiry or no expiry at all.
\<close>

datatype op = OpSet string string int64 | OpDelete string | OpExpire string int64 | OpExpireKeys

fun apply_op :: "(string \<Rightarrow> 64 word) \<Rightarrow> Store \<Rightarrow> int64 \<times> op \<Rightarrow> Store" where
  "apply_op sum64 s (now, OpSet key val ttlMs) = Store_Set sum64 s now key val ttlMs"
| "apply_op sum64 s (now, OpDelete key) = fst (Store_Delete sum64 s key)"
| "apply_op sum64 s (now, OpExpire key ttlMs) = fst (Store_Expire sum64 s now key ttlMs)"
| "apply_op sum64 s (now, OpExpireKeys) = expireKeys sum64 s now"

fun run :: "(string \<Rightarrow> 64 word) \<Rightarrow> Store \<Rightarrow> (int64 \<times> op) list \<Rightarrow> Store" where
  "run sum64 s [] = s"
| "run sum64 s (x # xs) = run sum64 (apply_op sum64 s x) xs"

definition wheelTracksTail :: "(string \<Rightarrow> 64 word) \<Rightarrow> Store \<Rightarrow> bool" where
  "wheelTracksTail sum64 s =
     (\<forall>key e. entries (ttlWheel s) key = Some e \<longrightarrow>
        (\<exists>history. data (getShard sum64 s key) key = Some history \<and> Versions history \<noteq> [] \<and>
           (TTL (last (Versions history)) = e \<or> TTL (last (Versions history)) = 0)))"

section \<open>Reading a value (internal/proto/resp.go)\<close>

text \<open>
  \<open>Read\<close> and \<open>readArray\<close> call each other; \<open>readArrayLoop\<close> is the loop of
  \<open>readArray\<close> over the announced number of elements. Each successful read consumes
  at least one byte, which is why the recursion ends.
\<close>

function Read :: "string \<Rightarrow> error + (RESPValue \<times> string)"
  and readArray :: "string \<Rightarrow> error + (RESPValue \<times> string)"
  and readArrayLoop :: "nat \<Rightarrow> string \<Rightarrow> error + (RESPValue list \<times> string)"
where
  "Read [] = Inl EOF"
| "Read (typeByte # rest) =
     (if typeByte = SimpleString then readSimpleString rest
      else if typeByte = Error then readError rest
      else if typeByte = Integer then readInteger rest
      else if typeByte = BulkString then readBulkString rest
      else if typeByte = Array then readArray rest
      else Inl (UnknownRESPType typeByte))"
| "readArray inp =
     (case readLine inp of
        Inl err \<Rightarrow> Inl err
      | Inr (line, rest) \<Rightarrow>
          (case Atoi line of
             None \<Rightarrow> Inl (InvalidArrayLength line)
           | Some len \<Rightarrow>
               if len = - 1 then Inr (RESPValue Array [] 0 [] True, rest)
               else if len < 0 then Inl (InvalidArrayLength (formatInt len))
               else (case readArrayLoop (nat len) rest of
                       Inl err \<Rightarrow> Inl err
                     | Inr (array, rest') \<Rightarrow> Inr (RESPValue Array [] 0 array False, rest'))))"
| "readArrayLoop 0 inp = Inr ([], inp)"
| "readArrayLoop (Suc n) inp =
     (case Read inp of
        Inl err \<Rightarrow> Inl err
      | Inr (val, rest) \<Rightarrow>
          (case readArrayLoop n rest of
             Inl err \<Rightarrow> Inl err
           | Inr (vals, rest') \<Rightarrow> Inr (val # vals, rest')))"
  by pat_completeness auto

lemma ReadString_length:
  "ReadString delim inp = Some (line, rest) \<Longrightarrow> length inp = length line + length rest \<and> line \<noteq> []"
  by (induction inp arbitrary: line) (auto split: if_splits option.splits)

lemma readLine_shorter:
  "readLine inp = Inr (line, rest) \<Longrightarrow> length rest < length inp"
  by (auto simp: readLine_def split: option.splits if_splits dest!: ReadString_length)

lemma readSimpleString_shorter:
  "readSimpleString inp = Inr (v, rest) \<Longrightarrow> length rest < length inp"
  by (auto simp: readSimpleString_def split: sum.splits dest: readLine_shorter)

lemma readError_shorter:
  "readError inp = Inr (v, rest) \<Longrightarrow> length rest < length inp"
  by (auto simp: readError_def split: sum.splits dest: readLine_shorter)

lemma readInteger_shorter:
  "readInteger inp = Inr (v, rest) \<Longrightarrow> length rest < length inp"
  by (auto simp: readInteger_def split: sum.splits option.splits dest: readLine_shorter)

lemma readBulkString_shorter:
  "readBulkString inp = Inr (v, rest) \<Longrightarrow> length rest < length inp"
  by (auto simp: readBulkString_def ReadFull_def split: sum.splits option.splits if_splits
           dest!: readLine_shorter)

lemma Read_dom_shorter:
  "Read_readArray_readArrayLoop_dom (Inl inp) \<Longrightarrow>
     (\<forall>v rest. Read inp = Inr (v, rest) \<longrightarrow> length rest < length inp)"
  "Read_readArray_readArrayLoop_dom (Inr (Inl inp')) \<Longrightarrow>
     (\<forall>v rest. readArray inp' = Inr (v, rest) \<longrightarrow> length rest < length inp')"
  "Read_readArray_readArrayLoop_dom (Inr (Inr (n, inp''))) \<Longrightarrow>
     (\<forall>vs rest. readArrayLoop n inp'' = Inr (vs, rest) \<longrightarrow> length rest \<le> length inp'')"
proof (induction inp and inp' and n inp'' rule: Read_readArray_readArrayLoop.pinduct)
  case 1
  then show ?case by (simp add: Read.psimps)
next
  case (2 typeByte rest)
  then show ?case
    by (auto simp: Read.psimps split: if_splits
             dest: readSimpleString_shorter readError_shorter readInteger_shorter
                   readBulkString_shorter)
next
  case (3 inp)
  then show ?case
    by (fastforce simp: readArray.psimps split: sum.splits option.splits if_splits
                  dest: readLine_shorter)
next
  case (4 inp)
  then show ?case by (simp add: readArrayLoop.psimps)
next
  case (5 n inp)
  then show ?case
    by (fastforce simp: readArrayLoop.psimps split: sum.splits)
qed

termination Read
proof (relation "measure (\<lambda>x. case x of
                     Inl inp \<Rightarrow> 3 * length inp
                   | Inr (Inl inp) \<Rightarrow> 3 * length inp
                   | Inr (Inr (n, inp)) \<Rightarrow> 3 * length inp + 1)", goal_cases)
  case 1
  then show ?case by simp
next
  case (2 typeByte rest)
  then show ?case by simp
next
  case (3 inp b line rest len)
  then show ?case using readLine_shorter [of inp line rest] by simp
next
  case (4 n inp)
  then show ?case by simp
next
  case (5 n inp b val rest)
  then show ?case using Read_dom_shorter(1) [of inp] by auto
qed

section \<open>Well-formed values\<close>

text \<open>
  A value is well formed when it is one of the five typed arms and carries only the
  fields of its arm: a SimpleString or an Error a line without a line feed, an Integer
  its number, a BulkString its bytes or the null flag, an Array its well-formed elements
  or the null flag. Lengths fit Go's \<open>int\<close>, as they do for every Go string and
  slice. \<open>roundTrips\<close> says of a value that it serializes, and that reading the
  bytes written, followed by any further input, gives the value back and leaves that
  further input.
\<close>

fun wellFormed :: "RESPValue \<Rightarrow> bool" where
  "wellFormed (RESPValue ty str i arr null) =
     (if ty = SimpleString \<or> ty = Error then LF \<notin> set str \<and> i = 0 \<and> arr = [] \<and> \<not> null
      else if ty = Integer then str = [] \<and> arr = [] \<and> \<not> null
      else if ty = BulkString then
        i = 0 \<and> arr = [] \<and> (null \<longrightarrow> str = []) \<and> int (length str) + 2 < 2 ^ 63
      else if ty = Array then
        str = [] \<and> i = 0 \<and> (null \<longrightarrow> arr = []) \<and> int (length arr) < 2 ^ 63 \<and>
        (\<forall>v \<in> set arr. wellFormed v)
      else False)"

definition roundTrips :: "RESPValue \<Rightarrow> bool" where
  "roundTrips v = (\<forall>rest. \<exists>out. WriteValue v = Inr out \<and> Read (out @ rest) = Inr (v, rest))"

section \<open>A digest for evaluation\<close>

text \<open>
  The store never looks at the digest beyond taking a shard index from it. Where a
  statement below is evaluated at concrete keys, this function stands for it.
\<close>

definition sum64_sample :: "string \<Rightarrow> 64 word" where
  "sum64_sample key = of_nat (length key)"

section \<open>Auxiliary facts\<close>

lemmas store_eval =
  Store_TTL_def Store_Set_def Store_Expire_def Store_GetAt_def Store_Get_def Store_Delete_def
  NewStore_def NewTTLWheel_def getShard_def hash_def sum64_sample_def ShardCount_def
  MaxVersions_def TTLWheel_Add_def TTLWheel_Remove_def Let_def word_sless_alt word_sle_eq

subsection \<open>Signed arithmetic without wrap-around\<close>

lemma sint_diff_no_wrap:
  fixes a b :: int64
  assumes "- (2 ^ 63) \<le> sint a - sint b" and "sint a - sint b < 2 ^ 63"
  shows "sint (a - b) = sint a - sint b"
  using assms by (simp add: sint_word_diff signed_take_bit_int_eq_self)

lemma sint_add_no_wrap:
  fixes a b :: int64
  assumes "- (2 ^ 63) \<le> sint a + sint b" and "sint a + sint b < 2 ^ 63"
  shows "sint (a + b) = sint a + sint b"
  using assms by (simp add: sint_word_add signed_take_bit_int_eq_self)

lemma sint_int64_bounds:
  fixes a :: int64
  shows "- (2 ^ 63) \<le> sint a" and "sint a < 2 ^ 63"
  using sint_ge [of a] sint_lt [of a] by simp_all

lemma remaining_positive:
  fixes now e :: int64
  assumes "0 \<le>s now" and "now <s e"
  shows "0 <s e - now" and "e - now \<le>s e"
proof -
  from assms have n: "0 \<le> sint now" and lt: "sint now < sint e"
    by (simp_all add: word_sle_eq word_sless_alt)
  have "sint (e - now) = sint e - sint now"
    using n lt sint_int64_bounds [of e] by (intro sint_diff_no_wrap) linarith+
  with n lt show "0 <s e - now" and "e - now \<le>s e"
    by (simp_all add: word_sle_eq word_sless_alt)
qed

subsection \<open>Updating one key of the store\<close>

lemma list_update_last:
  "xs \<noteq> [] \<Longrightarrow> xs[length xs - Suc 0 := x] = butlast xs @ [x]"
  by (induction xs rule: rev_induct) (simp_all add: list_update_append)

lemma getShard_update_same:
  "getShard sum64 (s\<lparr>shards := (shards s)(hash sum64 key := sh), ttlWheel := w\<rparr>) key = sh"
  by (simp add: getShard_def)

subsection \<open>Chains after writes\<close>

lemma scanVersions_spec: "scanVersions (rev chain) ts = GetAt_spec chain ts"
  by (induction chain rule: rev_induct) (simp_all add: GetAt_spec_def Let_def)

lemma latest_rev: "latest xs = rev (take MaxVersions (rev xs))"
  by (simp add: latest_def take_rev)

lemma latest_append: "latest (latest xs @ ys) = latest (xs @ ys)"
  by (simp add: latest_rev take_append min_def)

lemma Store_Set_chain:
  "data (getShard sum64 (Store_Set sum64 s now key val ttlMs) key) key =
     Some \<lparr>Versions = latest (chainOf sum64 s key @ [written (now, val, ttlMs)])\<rparr>"
  by (simp add: Store_Set_def Let_def getShard_update_same latest_def chainOf_def written_def
           split: option.splits)

lemma chainOf_Store_Set:
  "chainOf sum64 (Store_Set sum64 s now key val ttlMs) key =
     latest (chainOf sum64 s key @ [written (now, val, ttlMs)])"
  by (simp add: chainOf_def [of _ "Store_Set sum64 s now key val ttlMs"] Store_Set_chain)

lemma chainOf_Sets:
  "chainOf sum64 (Sets sum64 s key writes) key =
     (if writes = [] then chainOf sum64 s key
      else latest (chainOf sum64 s key @ map written writes))"
proof (induction writes arbitrary: s)
  case Nil
  then show ?case by simp
next
  case (Cons w writes)
  obtain now val ttlMs where w: "w = (now, val, ttlMs)" by (cases w)
  show ?case
    by (simp add: w Cons.IH chainOf_Store_Set latest_append)
qed

lemma GetAt_spec_Nil: "GetAt_spec [] ts = ('''', False)"
  by (simp add: GetAt_spec_def)

lemma Store_GetAt_refines:
  "Store_GetAt sum64 s key ts =
     (case data (getShard sum64 s key) key of
        None \<Rightarrow> ('''', False)
      | Some history \<Rightarrow> GetAt_spec (Versions history) ts)"
  by (simp add: Store_GetAt_def scanVersions_spec split: option.splits)

lemma Store_GetAt_chainOf: "Store_GetAt sum64 s key ts = GetAt_spec (chainOf sum64 s key) ts"
  by (simp add: Store_GetAt_refines chainOf_def GetAt_spec_Nil split: option.splits)

subsection \<open>Reads on strictly increasing timestamps\<close>

lemma filter_le_increasing:
  assumes "sorted_wrt (\<lambda>a b. Timestamp a <s Timestamp b) (older @ v # newer)"
  shows "filter (\<lambda>u. Timestamp u \<le>s Timestamp v) (older @ v # newer) = older @ [v]"
  using assms
  by (auto simp: sorted_wrt_append signed.not_le [symmetric] intro!: filter_True filter_False
           dest: signed.less_imp_le)

lemma sint_pred:
  fixes t :: int64
  assumes "t \<noteq> MinInt64"
  shows "sint (t - 1) = sint t - 1"
proof -
  have "sint t \<noteq> sint MinInt64"
    using assms signed_word_eqI [of t MinInt64] by blast
  then have "sint t \<noteq> - (2 ^ 63)" by (simp add: MinInt64_def)
  with sint_int64_bounds [of t] have "- (2 ^ 63) < sint t" by linarith
  then show ?thesis
    using sint_int64_bounds [of t] sint_diff_no_wrap [of t 1] by simp
qed

lemma pred_le_iff:
  fixes t u :: int64
  assumes "t \<noteq> MinInt64"
  shows "u \<le>s t - 1 \<longleftrightarrow> u <s t"
  using sint_pred [OF assms] by (auto simp: word_sle_eq word_sless_alt)

lemma filter_lt_increasing:
  assumes "sorted_wrt (\<lambda>a b. Timestamp a <s Timestamp b) (older @ v # newer)"
  shows "filter (\<lambda>u. Timestamp u <s Timestamp v) (older @ v # newer) = older"
  using assms
  by (auto simp: sorted_wrt_append signed.not_less [symmetric] intro!: filter_True filter_False
           dest: signed.less_imp_le)

lemma GetAt_spec_at_write:
  assumes "sorted_wrt (\<lambda>a b. Timestamp a <s Timestamp b) (older @ v # newer)" and "TTL v = 0"
  shows "GetAt_spec (older @ v # newer) (Timestamp v) = (Data v, True)"
  using assms by (simp add: GetAt_spec_def filter_le_increasing del: filter_append filter.simps)

lemma GetAt_spec_before_write:
  assumes "sorted_wrt (\<lambda>a b. Timestamp a <s Timestamp b) (older @ v # newer)"
    and "Timestamp v \<noteq> MinInt64" and "\<forall>u \<in> set older. TTL u = 0"
  shows "GetAt_spec (older @ v # newer) (Timestamp v - 1) =
           (if older = [] then ('''', False) else (Data (last older), True))"
  using assms
  by (simp add: GetAt_spec_def pred_le_iff filter_lt_increasing del: filter_append filter.simps)

lemma written_noTTL: "written (noTTL w) = \<lparr>Data = snd w, Timestamp = fst w, TTL = 0\<rparr>"
  by (cases w) (simp add: written_def)

lemma latest_window:
  assumes "length newer < MaxVersions"
  shows "latest (older @ x # newer) =
           drop (length older + 1 + length newer - MaxVersions) older @ x # newer"
  using assms by (simp add: latest_def)

lemma snapshot_chain:
  assumes absent: "data (getShard sum64 s0 key) key = None"
    and incr: "sorted_wrt (<s) (map fst (before @ (t, v) # after))"
    and kept: "length after < MaxVersions"
  defines "s \<equiv> Sets sum64 s0 key (map noTTL (before @ (t, v) # after))"
  defines "older \<equiv> drop (length before + 1 + length after - MaxVersions) (map (written \<circ> noTTL) before)"
  shows "chainOf sum64 s key = older @ written (noTTL (t, v)) # map (written \<circ> noTTL) after"
    and "sorted_wrt (\<lambda>a b. Timestamp a <s Timestamp b) (chainOf sum64 s key)"
    and "older = [] \<longleftrightarrow> before = [] \<or> MaxVersions \<le> length after + 1"
    and "older \<noteq> [] \<Longrightarrow> Data (last older) = snd (last before)"
    and "\<forall>u \<in> set older. TTL u = 0"
proof -
  have c0: "chainOf sum64 s0 key = []" using absent by (simp add: chainOf_def)
  have "chainOf sum64 s key = latest (map (written \<circ> noTTL) (before @ (t, v) # after))"
    unfolding s_def by (simp add: chainOf_Sets c0)
  also have "\<dots> = older @ written (noTTL (t, v)) # map (written \<circ> noTTL) after"
    unfolding older_def using kept latest_window [of "map (written \<circ> noTTL) after" "map (written \<circ> noTTL) before"]
    by simp
  finally show chain: "chainOf sum64 s key = older @ written (noTTL (t, v)) # map (written \<circ> noTTL) after" .
  have "sorted_wrt (\<lambda>a b. Timestamp a <s Timestamp b) (map (written \<circ> noTTL) (before @ (t, v) # after))"
    using incr by (simp add: sorted_wrt_map written_noTTL del: map_append)
  then have "sorted_wrt (\<lambda>a b. Timestamp a <s Timestamp b) (latest (map (written \<circ> noTTL) (before @ (t, v) # after)))"
    unfolding latest_def by (rule sorted_wrt_drop)
  then show "sorted_wrt (\<lambda>a b. Timestamp a <s Timestamp b) (chainOf sum64 s key)"
    unfolding s_def by (simp add: chainOf_Sets c0)
  have "older = [] \<longleftrightarrow> length before \<le> length before + 1 + length after - MaxVersions"
    unfolding older_def by simp
  also have "\<dots> \<longleftrightarrow> length before = 0 \<or> MaxVersions \<le> length after + 1"
    using kept by arith
  finally show "older = [] \<longleftrightarrow> before = [] \<or> MaxVersions \<le> length after + 1"
    by simp
  show "Data (last older) = snd (last before)" if ne: "older \<noteq> []"
  proof -
    from ne have "before \<noteq> []" unfolding older_def by auto
    with ne show ?thesis unfolding older_def by (simp add: last_map written_noTTL)
  qed
  show "\<forall>u \<in> set older. TTL u = 0"
    unfolding older_def by (auto simp: written_noTTL dest!: in_set_dropD)
qed

subsection \<open>The insertion sort\<close>

lemma length_insertLeft: "length (insertLeft lessFn x ps) = Suc (length ps)"
  by (induction ps) simp_all

lemma set_insertLeft: "set (insertLeft lessFn x ps) = insert x (set ps)"
  by (induction ps) auto

lemma length_foldl_insertLeft:
  "length (foldl (\<lambda>prefix x. insertLeft lessFn x prefix) acc xs) = length acc + length xs"
  by (induction xs arbitrary: acc) (simp_all add: length_insertLeft)

lemma length_sort_Slice: "length (sort_Slice lessFn xs) = length xs"
  by (simp add: sort_Slice_def length_foldl_insertLeft)

lemma sorted_insertLeft:
  "sorted_wrt (\<lambda>a b. Timestamp a \<le>s Timestamp b) ps \<Longrightarrow>
   sorted_wrt (\<lambda>a b. Timestamp a \<le>s Timestamp b) (insertLeft newerFirst x ps)"
  by (induction ps) (auto simp: set_insertLeft signed.not_less dest: signed.less_imp_le signed.order_trans)

lemma sorted_foldl_insertLeft:
  "sorted_wrt (\<lambda>a b. Timestamp a \<le>s Timestamp b) acc \<Longrightarrow>
   sorted_wrt (\<lambda>a b. Timestamp a \<le>s Timestamp b)
     (foldl (\<lambda>prefix x. insertLeft newerFirst x prefix) acc xs)"
  by (induction xs arbitrary: acc) (simp_all add: sorted_insertLeft)

lemma sorted_sort_Slice:
  "sorted_wrt (\<lambda>a b. Timestamp b \<le>s Timestamp a) (sort_Slice newerFirst xs)"
  by (simp add: sort_Slice_def sorted_wrt_rev sorted_foldl_insertLeft)

lemma insertLeft_newest:
  "\<forall>p \<in> set ps. Timestamp p <s Timestamp x \<Longrightarrow> insertLeft newerFirst x ps = ps @ [x]"
  by (induction ps) simp_all

lemma foldl_insertLeft_increasing:
  "sorted_wrt (\<lambda>a b. Timestamp a <s Timestamp b) (acc @ xs) \<Longrightarrow>
   foldl (\<lambda>prefix x. insertLeft newerFirst x prefix) acc xs = acc @ xs"
proof (induction xs arbitrary: acc)
  case Nil
  then show ?case by simp
next
  case (Cons x xs)
  from Cons.prems have "\<forall>p \<in> set acc. Timestamp p <s Timestamp x"
    by (simp add: sorted_wrt_append)
  then have "insertLeft newerFirst x acc = acc @ [x]" by (rule insertLeft_newest)
  with Cons.IH [of "acc @ [x]"] Cons.prems show ?case by simp
qed

lemma sort_Slice_increasing:
  "sorted_wrt (\<lambda>a b. Timestamp a <s Timestamp b) xs \<Longrightarrow> sort_Slice newerFirst xs = rev xs"
  using foldl_insertLeft_increasing [of "[]" xs] by (simp add: sort_Slice_def)

lemma Store_History_chainOf:
  "Store_History sum64 s key 0 = sort_Slice newerFirst (chainOf sum64 s key)"
  by (simp add: Store_History_def chainOf_def sort_Slice_def split: option.splits)

lemma Store_History_limit:
  "0 < limit \<Longrightarrow>
   Store_History sum64 s key limit = take (nat limit) (Store_History sum64 s key 0)"
  by (auto simp: Store_History_def Let_def split: option.splits)

lemma length_latest: "length (latest xs) = min (length xs) MaxVersions"
  by (simp add: latest_def)

subsection \<open>The store after each operation\<close>

lemma data_update:
  "data (getShard sum64
     (s\<lparr>shards := (shards s)(hash sum64 key :=
            (getShard sum64 s key)\<lparr>data := (data (getShard sum64 s key))(key := x)\<rparr>),
        ttlWheel := w\<rparr>) k) k =
   (if k = key then x else data (getShard sum64 s k) k)"
  by (auto simp: getShard_def)

lemma Store_Set_data:
  "data (getShard sum64 (Store_Set sum64 s now key val ttlMs) k) k =
     (if k = key
      then Some \<lparr>Versions = latest (chainOf sum64 s key @ [written (now, val, ttlMs)])\<rparr>
      else data (getShard sum64 s k) k)"
  by (simp add: Store_Set_def Let_def data_update latest_def chainOf_def written_def
           split: option.splits)

lemma Store_Set_wheel:
  "entries (ttlWheel (Store_Set sum64 s now key val ttlMs)) k =
     (if k = key \<and> 0 <s ttlMs then Some (now + ttlMs) else entries (ttlWheel s) k)"
  by (simp add: Store_Set_def Let_def TTLWheel_Add_def)

lemma last_latest_snoc: "last (latest (xs @ [x])) = x"
  by (simp add: latest_def MaxVersions_def)

lemma latest_snoc_ne: "latest (xs @ [x]) \<noteq> []"
  by (simp add: latest_def MaxVersions_def)

lemma Store_Delete_data:
  "data (getShard sum64 (fst (Store_Delete sum64 s key)) k) k =
     (if k = key then None else data (getShard sum64 s k) k)"
  by (auto simp: Store_Delete_def Let_def data_update split: option.splits)

lemma Store_Delete_wheel:
  "entries (ttlWheel (fst (Store_Delete sum64 s key))) k =
     (if k = key \<and> data (getShard sum64 s key) key \<noteq> None then None else entries (ttlWheel s) k)"
  by (auto simp: Store_Delete_def Let_def TTLWheel_Remove_def split: option.splits)

lemma Store_Expire_data:
  "data (getShard sum64 (fst (Store_Expire sum64 s now key ttlMs)) k) k =
     (if k = key \<and> chainOf sum64 s key \<noteq> []
      then Some \<lparr>Versions = butlast (chainOf sum64 s key) @
                    [(last (chainOf sum64 s key))\<lparr>TTL := now + ttlMs\<rparr>]\<rparr>
      else data (getShard sum64 s k) k)"
  by (auto simp: Store_Expire_def Let_def data_update chainOf_def list_update_last last_conv_nth
           split: option.splits)

lemma Store_Expire_wheel:
  "entries (ttlWheel (fst (Store_Expire sum64 s now key ttlMs))) k =
     (if k = key \<and> chainOf sum64 s key \<noteq> [] then Some (now + ttlMs) else entries (ttlWheel s) k)"
  by (auto simp: Store_Expire_def Let_def TTLWheel_Add_def chainOf_def split: option.splits)

lemma expireKeys_wheel:
  "entries (ttlWheel (expireKeys sum64 s now)) k =
     (case entries (ttlWheel s) k of
        None \<Rightarrow> None
      | Some e \<Rightarrow> if e \<le>s now then None else Some e)"
  by (simp add: expireKeys_def TTLWheel_GetExpired_def)

lemma expireKeys_data:
  "data (getShard sum64 (expireKeys sum64 s now) k) k =
     (case data (getShard sum64 s k) k of
        None \<Rightarrow> None
      | Some history \<Rightarrow>
          if (\<exists>e. entries (ttlWheel s) k = Some e \<and> e \<le>s now) \<and> Versions history \<noteq> [] \<and>
             0 <s TTL (last (Versions history)) \<and> TTL (last (Versions history)) \<le>s now
          then None else Some history)"
  by (auto simp: expireKeys_def TTLWheel_GetExpired_def getShard_def last_conv_nth
           split: option.splits)

lemma wheelTracksTail_absent:
  "wheelTracksTail sum64 s \<Longrightarrow> data (getShard sum64 s key) key = None \<Longrightarrow>
   entries (ttlWheel s) key = None"
proof (cases "entries (ttlWheel s) key")
  case None
  then show ?thesis by simp
next
  case (Some e)
  assume "wheelTracksTail sum64 s" and absent: "data (getShard sum64 s key) key = None"
  then obtain history where "data (getShard sum64 s key) key = Some history"
    using Some unfolding wheelTracksTail_def by blast
  with absent show ?thesis by simp
qed

lemma wheelTracksTail_apply_op:
  assumes "wheelTracksTail sum64 s"
  shows "wheelTracksTail sum64 (apply_op sum64 s x)"
proof -
  obtain now o' where x: "x = (now, o')" by (cases x)
  show ?thesis
  proof (cases o')
    case (OpSet key val ttlMs)
    then show ?thesis using assms
      by (auto simp: x wheelTracksTail_def Store_Set_data Store_Set_wheel last_latest_snoc
                     latest_snoc_ne written_def)
  next
    case (OpDelete key)
    then show ?thesis using assms wheelTracksTail_absent [OF assms, of key]
      by (auto simp: x wheelTracksTail_def Store_Delete_data Store_Delete_wheel split: if_splits)
  next
    case (OpExpire key ttlMs)
    then show ?thesis using assms
      by (auto simp: x wheelTracksTail_def Store_Expire_data Store_Expire_wheel split: if_splits)
  next
    case OpExpireKeys
    then show ?thesis using assms
      by (fastforce simp: x wheelTracksTail_def expireKeys_data expireKeys_wheel
                    split: if_splits option.splits)
  qed
qed

lemma wheelTracksTail_run:
  "wheelTracksTail sum64 s \<Longrightarrow> wheelTracksTail sum64 (run sum64 s ops)"
  by (induction ops arbitrary: s) (simp_all add: wheelTracksTail_apply_op)

lemma wheelTracksTail_NewStore: "wheelTracksTail sum64 NewStore"
  by (simp add: wheelTracksTail_def NewStore_def NewTTLWheel_def)

subsection \<open>Reads that select the tail\<close>

lemma scanVersions_tail:
  assumes "chain \<noteq> []" and "Timestamp (last chain) \<le>s ts"
  shows "scanVersions (rev chain) ts =
           (if 0 <s TTL (last chain) \<and> TTL (last chain) \<le>s ts then ('''', False)
            else (Data (last chain), True))"
  using assms by (cases chain rule: rev_cases) simp_all

lemma Store_Get_tail:
  assumes "chainOf sum64 s key \<noteq> []" and "Timestamp (last (chainOf sum64 s key)) \<le>s now"
  shows "Store_Get sum64 s now key =
           (if 0 <s TTL (last (chainOf sum64 s key)) \<and> TTL (last (chainOf sum64 s key)) \<le>s now
            then ('''', False) else (Data (last (chainOf sum64 s key)), True))"
  using assms scanVersions_tail [of "chainOf sum64 s key" now]
  by (auto simp: Store_Get_def Store_GetAt_def chainOf_def split: option.splits)

lemma Store_TTL_chainOf:
  "Store_TTL sum64 s now key =
     (if chainOf sum64 s key = [] then - 2
      else if TTL (last (chainOf sum64 s key)) = 0 then - 1
      else if TTL (last (chainOf sum64 s key)) \<le>s now then - 2
      else TTL (last (chainOf sum64 s key)) - now)"
  by (auto simp: Store_TTL_def chainOf_def Let_def last_conv_nth split: option.splits)

lemma chainOf_Store_Expire:
  "chainOf sum64 s key \<noteq> [] \<Longrightarrow>
   chainOf sum64 (fst (Store_Expire sum64 s now key ttlMs)) key =
     butlast (chainOf sum64 s key) @ [(last (chainOf sum64 s key))\<lparr>TTL := now + ttlMs\<rparr>]"
  by (simp add: chainOf_def [of _ "fst (Store_Expire sum64 s now key ttlMs)"] Store_Expire_data)

lemma Store_Expire_ok:
  "snd (Store_Expire sum64 s now key ttlMs) \<longleftrightarrow> chainOf sum64 s key \<noteq> []"
  by (auto simp: Store_Expire_def chainOf_def Let_def split: option.splits)

lemma negative_seconds_past:
  fixes now seconds :: int64
  assumes "seconds <s 0" and "- 9223372036854775 \<le>s seconds" and "0 \<le>s now"
  shows "now + seconds * 1000 <s now"
proof -
  from assms have b: "sint seconds < 0" "- 9223372036854775 \<le> sint seconds" "0 \<le> sint now"
    by (simp_all add: word_sless_alt word_sle_eq)
  have m: "sint (seconds * 1000) = sint seconds * 1000"
    using b by (simp add: sint_word_mult signed_take_bit_int_eq_self)
  have "sint (now + seconds * 1000) = sint now + sint (seconds * 1000)"
    using b m sint_int64_bounds [of now] by (intro sint_add_no_wrap) simp_all
  with m b show ?thesis by (simp add: word_sless_alt)
qed

lemmas format_eval = formatInt_def formatNat.simps digitChar_def char_of_def bit_Suc_0_iff

subsection \<open>The flattened history\<close>

lemma length_pairs: "length (concat (map (\<lambda>x. [f x, g x]) xs)) = 2 * length xs"
  by (induction xs) simp_all

lemma nth_pairs:
  "i < length xs \<Longrightarrow>
   concat (map (\<lambda>x. [f x, g x]) xs) ! (2 * i) = f (xs ! i) \<and>
   concat (map (\<lambda>x. [f x, g x]) xs) ! (2 * i + 1) = g (xs ! i)"
proof (induction xs arbitrary: i)
  case Nil
  then show ?case by simp
next
  case (Cons x xs)
  then show ?case by (cases i) simp_all
qed

lemma Store_History_sorted:
  "0 \<le> limit \<Longrightarrow>
   sorted_wrt (\<lambda>a b. Timestamp b \<le>s Timestamp a) (Store_History sum64 s key limit)"
proof (cases "limit = 0")
  case True
  then show ?thesis by (simp only: Store_History_chainOf sorted_sort_Slice)
next
  case False
  assume "0 \<le> limit"
  with False have "0 < limit" by simp
  then show ?thesis
    using sorted_wrt_take [of "\<lambda>a b. Timestamp b \<le>s Timestamp a" "Store_History sum64 s key 0" "nat limit"]
    by (simp only: Store_History_limit Store_History_chainOf sorted_sort_Slice)
qed

lemma Store_History_increasing:
  assumes "sorted_wrt (\<lambda>a b. Timestamp a <s Timestamp b) (chainOf sum64 s key)" and "0 \<le> limit"
  shows "Store_History sum64 s key limit =
           (if 0 < limit then take (nat limit) (rev (chainOf sum64 s key))
            else rev (chainOf sum64 s key))"
proof -
  have z: "Store_History sum64 s key 0 = rev (chainOf sum64 s key)"
    using assms(1) by (simp only: Store_History_chainOf sort_Slice_increasing)
  show ?thesis
  proof (cases "0 < limit")
    case True
    then show ?thesis by (simp add: Store_History_limit z)
  next
    case False
    with assms(2) have "limit = 0" by simp
    then show ?thesis by (simp add: z)
  qed
qed

lemma handleHist_valid:
  assumes "args = [key] \<and> limit = 0 \<or> args = [key, str] \<and> Atoi str = Some limit \<and> 0 \<le> limit"
  shows "handleHist sum64 s args =
           RESPValue Array [] 0
             (concat (map (\<lambda>version.
                [RESPValue Integer [] (Timestamp version) [] False,
                 RESPValue BulkString (Data version) 0 [] False])
                (Store_History sum64 s key limit))) False"
  using assms by (auto simp: handleHist_def Let_def)

lemma handleHist_pairs:
  assumes a: "args = [key] \<and> limit = 0 \<or> args = [key, str] \<and> Atoi str = Some limit \<and> 0 \<le> limit"
  shows "Type (handleHist sum64 s args) = Array \<and> \<not> Null (handleHist sum64 s args) \<and>
      length (Array' (handleHist sum64 s args)) = 2 * length (Store_History sum64 s key limit) \<and>
      (\<forall>i < length (Store_History sum64 s key limit).
         Array' (handleHist sum64 s args) ! (2 * i) =
           RESPValue Integer [] (Timestamp (Store_History sum64 s key limit ! i)) [] False \<and>
         Array' (handleHist sum64 s args) ! (2 * i + 1) =
           RESPValue BulkString (Data (Store_History sum64 s key limit ! i)) 0 [] False) \<and>
      sorted_wrt (\<lambda>a b. Timestamp b \<le>s Timestamp a) (Store_History sum64 s key limit) \<and>
      (sorted_wrt (\<lambda>a b. Timestamp a <s Timestamp b) (chainOf sum64 s key) \<longrightarrow>
         Store_History sum64 s key limit =
           (if 0 < limit then take (nat limit) (rev (chainOf sum64 s key))
            else rev (chainOf sum64 s key)))"
proof -
  note h = handleHist_valid [OF a, of sum64 s]
  from a have l: "0 \<le> limit" by auto
  show ?thesis
    unfolding h
    using nth_pairs [where xs = "Store_History sum64 s key limit"
            and f = "\<lambda>version. RESPValue Integer [] (Timestamp version) [] False"
            and g = "\<lambda>version. RESPValue BulkString (Data version) 0 [] False"]
          Store_History_sorted [OF l, of sum64 s key]
          Store_History_increasing [OF _ l, of sum64 s key]
    by (simp add: length_pairs)
qed

lemma handleHist_missing:
  assumes "data (getShard sum64 s key) key = None"
  shows "handleHist sum64 s [key] = RESPValue Array [] 0 [] False \<and>
         WriteValue (handleHist sum64 s [key]) = Inr (''*0'' @ [CR, LF])"
proof -
  from assms have h: "handleHist sum64 s [key] = RESPValue Array [] 0 [] False"
    by (simp add: handleHist_def Store_History_def)
  then show ?thesis by (simp add: format_eval)
qed

subsection \<open>Decimal numbers\<close>

lemma digitChar_props:
  assumes "d < 10"
  shows "isDigit (digitChar d)" and "digitVal (digitChar d) = d"
  using assms by (simp_all add: isDigit_def digitVal_def digitChar_def)

lemma isDigit_not_special:
  assumes "isDigit c"
  shows "c \<noteq> LF" and "c \<noteq> CHR ''+''" and "c \<noteq> CHR ''-''"
  using assms by (auto simp: isDigit_def)

lemma formatNat_digits: "list_all isDigit (formatNat n)"
proof (induction n rule: formatNat.induct)
  case (1 n)
  show ?case
  proof (cases "n < 10")
    case True
    then show ?thesis by (subst formatNat.simps) (simp add: digitChar_props)
  next
    case False
    with 1 show ?thesis by (subst formatNat.simps) (simp add: digitChar_props)
  qed
qed

lemma formatNat_ne: "formatNat n \<noteq> []"
  by (subst formatNat.simps) simp

lemma digitsValue_snoc: "digitsValue (ds @ [c]) = digitsValue ds * 10 + digitVal c"
  by (simp add: digitsValue_def)

lemma digitsValue_formatNat: "digitsValue (formatNat n) = n"
proof (induction n rule: formatNat.induct)
  case (1 n)
  show ?case
  proof (cases "n < 10")
    case True
    then show ?thesis
      by (subst formatNat.simps) (simp add: digitsValue_def digitChar_props)
  next
    case False
    with 1 show ?thesis
      by (subst formatNat.simps) (simp add: digitsValue_snoc digitChar_props)
  qed
qed

lemma formatNat_hd: "isDigit (hd (formatNat n))"
  using formatNat_digits [of n] formatNat_ne [of n] by (cases "formatNat n") simp_all

lemma parseSigned_formatInt:
  assumes "- (2 ^ 63) \<le> i" and "i < 2 ^ 63"
  shows "parseSigned (formatInt i) = Some i"
proof (cases "i < 0")
  case True
  then show ?thesis using assms
    by (simp add: parseSigned_def formatInt_def formatNat_ne formatNat_digits
                  digitsValue_formatNat)
next
  case False
  have "hd (formatNat (nat i)) \<noteq> CHR ''+''" "hd (formatNat (nat i)) \<noteq> CHR ''-''"
    using formatNat_hd [of "nat i"] isDigit_not_special by blast+
  then show ?thesis using False assms
    by (simp add: parseSigned_def formatInt_def formatNat_ne formatNat_digits
                  digitsValue_formatNat)
qed

lemma formatInt_no_LF: "LF \<notin> set (formatInt i)"
  using formatNat_digits [of "nat i"] formatNat_digits [of "nat (- i)"] isDigit_not_special(1)
  by (auto simp: formatInt_def list_all_iff)

lemma ParseInt_formatInt: "ParseInt (formatInt (sint (w :: int64))) = Some w"
  using sint_int64_bounds [of w] by (simp add: ParseInt_def parseSigned_formatInt)

lemma Atoi_formatInt_length:
  "length (xs :: 'a list) < 2 ^ 63 \<Longrightarrow> Atoi (formatInt (int (length xs))) = Some (int (length xs))"
  by (simp add: Atoi_def parseSigned_formatInt)

subsection \<open>Lines and payloads\<close>

lemma ReadString_no_delim:
  "delim \<notin> set line \<Longrightarrow> ReadString delim (line @ delim # rest) = Some (line @ [delim], rest)"
  by (induction line) auto

lemma readLine_CRLF:
  assumes "LF \<notin> set line"
  shows "readLine (line @ CR # LF # rest) = Inr (line, rest)"
proof -
  have "ReadString LF ((line @ [CR]) @ LF # rest) = Some ((line @ [CR]) @ [LF], rest)"
    using assms by (intro ReadString_no_delim) simp
  then show ?thesis by (simp add: readLine_def)
qed

lemma readBulkString_payload:
  assumes "int (length p) + 2 < 2 ^ 63"
  shows "readBulkString (formatInt (int (length p)) @ CR # LF # p @ x # y # rest) =
           Inr (RESPValue BulkString p 0 [] False, rest)"
proof -
  have l: "readLine (formatInt (int (length p)) @ CR # LF # p @ x # y # rest) =
             Inr (formatInt (int (length p)), p @ x # y # rest)"
    by (rule readLine_CRLF [OF formatInt_no_LF])
  have a: "Atoi (formatInt (int (length p))) = Some (int (length p))"
    using assms by (intro Atoi_formatInt_length) simp
  have f: "ReadFull (nat (int (length p) + 2)) (p @ x # y # rest) = Inr (p @ [x, y], rest)"
    by (simp add: ReadFull_def nat_add_distrib)
  show ?thesis
    using assms by (simp add: readBulkString_def l a f)
qed

subsection \<open>Values that round-trip\<close>

lemma roundTrips_loop:
  assumes "\<forall>v \<in> set arr. roundTrips v"
  shows "\<exists>out. WriteArrayLoop arr = Inr out \<and>
               readArrayLoop (length arr) (out @ rest) = Inr (arr, rest)"
  using assms
proof (induction arr)
  case Nil
  then show ?case by simp
next
  case (Cons v arr)
  then obtain out' where o': "WriteArrayLoop arr = Inr out'"
      "readArrayLoop (length arr) (out' @ rest) = Inr (arr, rest)"
    by auto
  from Cons.prems obtain out where o: "WriteValue v = Inr out"
      "Read (out @ out' @ rest) = Inr (v, out' @ rest)"
    unfolding roundTrips_def by (metis list.set_intros(1))
  show ?case using o o' by simp
qed

lemma roundTrips_simple:
  assumes "LF \<notin> set str"
  shows "roundTrips (RESPValue SimpleString str 0 [] False)"
    and "roundTrips (RESPValue Error str 0 [] False)"
  using assms
  by (simp_all add: roundTrips_def WriteSimpleString_def WriteError_def readSimpleString_def
                    readError_def readLine_CRLF)

lemma roundTrips_integer: "roundTrips (RESPValue Integer [] i [] False)"
  by (simp add: roundTrips_def WriteInteger_def readInteger_def readLine_CRLF formatInt_no_LF
                ParseInt_formatInt)

lemma roundTrips_bulk:
  assumes "int (length str) + 2 < 2 ^ 63"
  shows "roundTrips (RESPValue BulkString str 0 [] False)"
  using readBulkString_payload [OF assms, of CR LF]
  by (simp add: roundTrips_def WriteBulkString_def)

lemma readLine_minus_one: "readLine (''-1'' @ CR # LF # rest) = Inr (''-1'', rest)"
  by (simp add: readLine_def)

lemma Atoi_minus_one: "Atoi ''-1'' = Some (- 1)"
  by (simp add: Atoi_def parseSigned_def isDigit_def digitsValue_def digitVal_def)

lemma roundTrips_null:
  shows "roundTrips (RESPValue BulkString [] 0 [] True)"
    and "roundTrips (RESPValue Array [] 0 [] True)"
  using readLine_minus_one Atoi_minus_one
  by (simp_all add: roundTrips_def WriteNullBulkString_def WriteNullArray_def readBulkString_def)

lemma roundTrips_array:
  assumes "\<forall>v \<in> set arr. roundTrips v" and "int (length arr) < 2 ^ 63"
  shows "roundTrips (RESPValue Array [] 0 arr False)"
  unfolding roundTrips_def
proof
  fix rest
  obtain out where o: "WriteArrayLoop arr = Inr out"
      "readArrayLoop (length arr) (out @ rest) = Inr (arr, rest)"
    using roundTrips_loop [OF assms(1)] by blast
  have l: "readLine (formatInt (int (length arr)) @ CR # LF # out @ rest) =
             Inr (formatInt (int (length arr)), out @ rest)"
    by (rule readLine_CRLF [OF formatInt_no_LF])
  have a: "Atoi (formatInt (int (length arr))) = Some (int (length arr))"
    using assms(2) by (intro Atoi_formatInt_length) simp
  show "\<exists>out. WriteValue (RESPValue Array [] 0 arr False) = Inr out \<and>
              Read (out @ rest) = Inr (RESPValue Array [] 0 arr False, rest)"
    using o l a by simp
qed

lemma wellFormed_roundTrips: "wellFormed v \<Longrightarrow> roundTrips v"
proof (induction v)
  case (RESPValue ty str i arr null)
  consider "ty = SimpleString" | "ty = Error" | "ty = Integer" | "ty = BulkString" | "ty = Array"
    using RESPValue.prems by (auto split: if_splits)
  then show ?case
  proof cases
    case 1
    then show ?thesis using RESPValue.prems roundTrips_simple(1) by simp
  next
    case 2
    then show ?thesis using RESPValue.prems roundTrips_simple(2) by simp
  next
    case 3
    then show ?thesis using RESPValue.prems roundTrips_integer by simp
  next
    case 4
    then show ?thesis using RESPValue.prems roundTrips_bulk roundTrips_null(1)
      by (cases null) simp_all
  next
    case 5
    then have "\<forall>v \<in> set arr. roundTrips v"
      using RESPValue.prems RESPValue.IH by simp
    then show ?thesis using 5 RESPValue.prems roundTrips_array roundTrips_null(2)
      by (cases null) simp_all
  qed
qed

section \<open>Remaining lifetime\<close>

text \<open>
  Claim C6. For every key, \<open>Store.TTL\<close> returns -2 when the key is absent or its chain
  is empty; -1 when the tail of the chain has expiry 0; -2 when the tail has an expiry
  and the clock has reached it; and otherwise the tail's expiry minus the clock reading.
  That difference is a positive number of milliseconds for every reading of the
  Unix-epoch clock, which is never negative.
\<close>

theorem Store_TTL_sentinels:
  "(data (getShard sum64 s key) key = None \<longrightarrow> Store_TTL sum64 s now key = - 2) \<and>
   (\<forall>history. data (getShard sum64 s key) key = Some history \<longrightarrow>
      (Versions history = [] \<longrightarrow> Store_TTL sum64 s now key = - 2) \<and>
      (Versions history \<noteq> [] \<and> TTL (last (Versions history)) = 0 \<longrightarrow>
         Store_TTL sum64 s now key = - 1) \<and>
      (Versions history \<noteq> [] \<and> TTL (last (Versions history)) \<noteq> 0 \<and>
       TTL (last (Versions history)) \<le>s now \<longrightarrow>
         Store_TTL sum64 s now key = - 2) \<and>
      (Versions history \<noteq> [] \<and> TTL (last (Versions history)) \<noteq> 0 \<and>
       now <s TTL (last (Versions history)) \<longrightarrow>
         Store_TTL sum64 s now key = TTL (last (Versions history)) - now \<and>
         (0 \<le>s now \<longrightarrow> 0 <s Store_TTL sum64 s now key)))"
  by (auto simp: Store_TTL_def Let_def last_conv_nth remaining_positive
                 signed.not_less [symmetric] split: option.splits)

theorem Store_TTL_sentinels_witness:
  "data (getShard sum64_sample NewStore ''k'') ''k'' = None \<and>
   Store_TTL sum64_sample NewStore 10 ''k'' = - 2 \<and>
   data (getShard sum64_sample (Store_Set sum64_sample NewStore 5 ''k'' ''v'' 0) ''k'') ''k'' =
     Some \<lparr>Versions = [\<lparr>Data = ''v'', Timestamp = 5, TTL = 0\<rparr>]\<rparr> \<and>
   Store_TTL sum64_sample (Store_Set sum64_sample NewStore 5 ''k'' ''v'' 0) 10 ''k'' = - 1 \<and>
   data (getShard sum64_sample (Store_Set sum64_sample NewStore 5 ''k'' ''v'' 1000) ''k'') ''k'' =
     Some \<lparr>Versions = [\<lparr>Data = ''v'', Timestamp = 5, TTL = 1005\<rparr>]\<rparr> \<and>
   (0 :: int64) \<le>s 10 \<and> (10 :: int64) <s 1005 \<and>
   Store_TTL sum64_sample (Store_Set sum64_sample NewStore 5 ''k'' ''v'' 1000) 10 ''k'' = 995 \<and>
   0 <s Store_TTL sum64_sample (Store_Set sum64_sample NewStore 5 ''k'' ''v'' 1000) 10 ''k'' \<and>
   (1005 :: int64) \<le>s 2000 \<and>
   Store_TTL sum64_sample (Store_Set sum64_sample NewStore 5 ''k'' ''v'' 1000) 2000 ''k'' = - 2 \<and>
   data (getShard sum64_sample
      (NewStore\<lparr>shards := (\<lambda>i. \<lparr>data = [''k'' \<mapsto> \<lparr>Versions = []\<rparr>]\<rparr>)\<rparr>) ''k'') ''k'' =
     Some \<lparr>Versions = []\<rparr> \<and>
   Store_TTL sum64_sample
      (NewStore\<lparr>shards := (\<lambda>i. \<lparr>data = [''k'' \<mapsto> \<lparr>Versions = []\<rparr>]\<rparr>)\<rparr>) 10 ''k'' = - 2"
  using Store_TTL_sentinels [of sum64_sample NewStore "''k''" 10]
        Store_TTL_sentinels [of sum64_sample "Store_Set sum64_sample NewStore 5 ''k'' ''v'' 0"
                                "''k''" 10]
        Store_TTL_sentinels [of sum64_sample "Store_Set sum64_sample NewStore 5 ''k'' ''v'' 1000"
                                "''k''" 10]
        Store_TTL_sentinels [of sum64_sample "Store_Set sum64_sample NewStore 5 ''k'' ''v'' 1000"
                                "''k''" 2000]
        Store_TTL_sentinels [of sum64_sample
          "NewStore\<lparr>shards := (\<lambda>i. \<lparr>data = [''k'' \<mapsto> \<lparr>Versions = []\<rparr>]\<rparr>)\<rparr>" "''k''" 10]
  by (simp add: store_eval)

section \<open>Setting an expiry\<close>

text \<open>
  Claim C7. \<open>Expire\<close> returns true exactly when the key has a chain with at least one
  version. When it returns true, the tail of the chain carries the expiry
  \<open>now + ttlMs\<close>, the rest of the chain is as before, and the TTL wheel maps the key to
  that expiry. When it returns false, the store is unchanged.
\<close>

theorem Store_Expire_spec:
  "(snd (Store_Expire sum64 s now key ttlMs) \<longleftrightarrow>
      (\<exists>history. data (getShard sum64 s key) key = Some history \<and> Versions history \<noteq> [])) \<and>
   (\<forall>history. data (getShard sum64 s key) key = Some history \<and> Versions history \<noteq> [] \<longrightarrow>
      data (getShard sum64 (fst (Store_Expire sum64 s now key ttlMs)) key) key =
        Some (history\<lparr>Versions :=
                butlast (Versions history) @ [(last (Versions history))\<lparr>TTL := now + ttlMs\<rparr>]\<rparr>) \<and>
      entries (ttlWheel (fst (Store_Expire sum64 s now key ttlMs))) key = Some (now + ttlMs)) \<and>
   (\<not> snd (Store_Expire sum64 s now key ttlMs) \<longrightarrow>
      fst (Store_Expire sum64 s now key ttlMs) = s)"
  by (auto simp: Store_Expire_def Let_def getShard_update_same TTLWheel_Add_def
                 list_update_last last_conv_nth split: option.splits)

theorem Store_Expire_spec_witness:
  "snd (Store_Expire sum64_sample (Store_Set sum64_sample NewStore 5 ''k'' ''v'' 0) 7 ''k'' 100) \<and>
   data (getShard sum64_sample (Store_Set sum64_sample NewStore 5 ''k'' ''v'' 0) ''k'') ''k'' =
      Some \<lparr>Versions = [\<lparr>Data = ''v'', Timestamp = 5, TTL = 0\<rparr>]\<rparr> \<and>
   data (getShard sum64_sample
      (fst (Store_Expire sum64_sample (Store_Set sum64_sample NewStore 5 ''k'' ''v'' 0) 7 ''k'' 100))
      ''k'') ''k'' =
      Some \<lparr>Versions = [\<lparr>Data = ''v'', Timestamp = 5, TTL = 107\<rparr>]\<rparr> \<and>
   entries (ttlWheel
      (fst (Store_Expire sum64_sample (Store_Set sum64_sample NewStore 5 ''k'' ''v'' 0) 7 ''k'' 100)))
      ''k'' = Some 107 \<and>
   \<not> snd (Store_Expire sum64_sample NewStore 7 ''k'' 100) \<and>
   fst (Store_Expire sum64_sample NewStore 7 ''k'' 100) = NewStore"
  using Store_Expire_spec [of sum64_sample "Store_Set sum64_sample NewStore 5 ''k'' ''v'' 0"
                              7 "''k''" 100]
        Store_Expire_spec [of sum64_sample NewStore 7 "''k''" 100]
  by (simp add: store_eval)

section \<open>The TTL command\<close>

text \<open>
  Claim C1. The TTL command answers with \<open>Store.TTL\<close> divided by 1000, and Go's
  division truncates towards zero. The sentinels do not survive the division: for a
  key that does not exist the store returns -2 and the command answers Integer 0, for
  a key without expiry the store returns -1 and the command answers Integer 0, and for
  a key written at 1000 with a TTL of 100 ms and asked for at 1150 the store returns -2
  and the command answers Integer 0 as well.
\<close>

theorem handleTTL_loses_sentinels:
  "Store_TTL sum64 NewStore now ''missing'' = - 2 \<and>
   handleTTL sum64 NewStore now [''missing''] = RESPValue Integer [] 0 [] False \<and>
   Store_TTL sum64 (Store_Set sum64 NewStore now ''k'' ''v'' 0) now ''k'' = - 1 \<and>
   handleTTL sum64 (Store_Set sum64 NewStore now ''k'' ''v'' 0) now [''k''] =
     RESPValue Integer [] 0 [] False \<and>
   Store_TTL sum64 (Store_Set sum64 NewStore 1000 ''k'' ''v'' 100) 1150 ''k'' = - 2 \<and>
   handleTTL sum64 (Store_Set sum64 NewStore 1000 ''k'' ''v'' 100) 1150 [''k''] =
     RESPValue Integer [] 0 [] False"
  by (simp add: handleTTL_def int64_div_def signed_divide_int_def Store_TTL_def Store_Set_def
                NewStore_def NewTTLWheel_def getShard_def MaxVersions_def TTLWheel_Add_def
                Let_def word_sless_alt word_sle_eq)

section \<open>Snapshot reads\<close>

text \<open>
  Claim C3. \<open>GetAt\<close> selects the last version of the chain written at or before
  \<open>ts\<close>; it returns not-found when there is none or when the selected version has
  a positive expiry at or before \<open>ts\<close>, and that version's data otherwise. After
  writes without TTL at strictly increasing clock readings to a key that was absent, a
  read at the clock reading \<open>t\<close> of a write that is among the \<open>MaxVersions\<close>
  most recent ones returns the value of that write, and a read at \<open>t - 1\<close>
  returns the value of the write before it, or not-found when there is no write before
  it or that write is no longer retained.
\<close>

theorem GetAt_snapshot:
  "Store_GetAt sum64 s key ts =
     (case data (getShard sum64 s key) key of
        None \<Rightarrow> ('''', False)
      | Some history \<Rightarrow> GetAt_spec (Versions history) ts) \<and>
   (data (getShard sum64 s0 key) key = None \<and>
    sorted_wrt (<s) (map fst (before @ (t, v) # after)) \<and>
    length after < MaxVersions \<longrightarrow>
      Store_GetAt sum64 (Sets sum64 s0 key (map noTTL (before @ (t, v) # after))) key t = (v, True) \<and>
      (t \<noteq> MinInt64 \<longrightarrow>
         Store_GetAt sum64 (Sets sum64 s0 key (map noTTL (before @ (t, v) # after))) key (t - 1) =
           (if before = [] \<or> MaxVersions \<le> length after + 1 then ('''', False)
            else (snd (last before), True))))"
proof (intro conjI impI; (elim conjE)?)
  show "Store_GetAt sum64 s key ts =
     (case data (getShard sum64 s key) key of
        None \<Rightarrow> ('''', False)
      | Some history \<Rightarrow> GetAt_spec (Versions history) ts)"
    by (rule Store_GetAt_refines)
next
  assume a: "data (getShard sum64 s0 key) key = None"
    "sorted_wrt (<s) (map fst (before @ (t, v) # after))" "length after < MaxVersions"
  define S where "S = Sets sum64 s0 key (map noTTL (before @ (t, v) # after))"
  define older where
    "older = drop (length before + 1 + length after - MaxVersions) (map (written \<circ> noTTL) before)"
  define w where "w = written (noTTL (t, v))"
  define newer where "newer = map (written \<circ> noTTL) after"
  note c = snapshot_chain [OF a, folded S_def older_def w_def newer_def]
  have w: "Data w = v" "Timestamp w = t" "TTL w = 0"
    by (simp_all add: w_def written_def)
  have "Store_GetAt sum64 S key t = GetAt_spec (older @ w # newer) (Timestamp w)"
    by (simp only: Store_GetAt_chainOf c(1) w)
  also have "\<dots> = (Data w, True)"
    using c(2) w(3) unfolding c(1) by (rule GetAt_spec_at_write)
  finally show "Store_GetAt sum64 S key t = (v, True)"
    by (simp only: w)
  assume m: "t \<noteq> MinInt64"
  then have tm: "Timestamp w \<noteq> MinInt64" by (simp add: w)
  have "Store_GetAt sum64 S key (t - 1) = GetAt_spec (older @ w # newer) (Timestamp w - 1)"
    by (simp only: Store_GetAt_chainOf c(1) w)
  also have "\<dots> = (if older = [] then ('''', False) else (Data (last older), True))"
    by (rule GetAt_spec_before_write [OF c(2) [unfolded c(1)] tm c(5)])
  also have "\<dots> = (if before = [] \<or> MaxVersions \<le> length after + 1 then ('''', False)
            else (snd (last before), True))"
    using c(3) c(4) by auto
  finally show "Store_GetAt sum64 S key (t - 1) =
           (if before = [] \<or> MaxVersions \<le> length after + 1 then ('''', False)
            else (snd (last before), True))" .
qed

theorem GetAt_snapshot_witness:
  "data (getShard sum64_sample NewStore ''k'') ''k'' = None \<and>
   sorted_wrt (<s) (map fst ([(1, ''a'')] @ (2 :: int64, ''b'') # [(3, ''c'')])) \<and>
   length [(3 :: int64, ''c'')] < MaxVersions \<and> (2 :: int64) \<noteq> MinInt64 \<and>
   Store_GetAt sum64_sample
     (Sets sum64_sample NewStore ''k'' (map noTTL ([(1, ''a'')] @ (2, ''b'') # [(3, ''c'')])))
     ''k'' 2 = (''b'', True) \<and>
   Store_GetAt sum64_sample
     (Sets sum64_sample NewStore ''k'' (map noTTL ([(1, ''a'')] @ (2, ''b'') # [(3, ''c'')])))
     ''k'' (2 - 1) = (''a'', True)"
  using GetAt_snapshot [of sum64_sample NewStore "''k''" 0 NewStore "[(1, ''a'')]" 2 "''b''"
                           "[(3, ''c'')]"]
  by (simp add: MinInt64_def MaxVersions_def NewStore_def getShard_def word_sless_alt)

theorem GetAt_snapshot_counterexample:
  "sorted_wrt (<s) (map fst
     [(1 :: int64, ''v1''), (2, ''v2''), (3, ''v3''), (4, ''v4''), (5, ''v5''), (6, ''v6''),
      (7, ''v7''), (8, ''v8''), (9, ''v9''), (10, ''v10''), (11, ''v11'')]) \<and>
   Store_GetAt sum64_sample
     (Sets sum64_sample NewStore ''k'' (map noTTL
        [(1, ''v1''), (2, ''v2''), (3, ''v3''), (4, ''v4''), (5, ''v5''), (6, ''v6''),
         (7, ''v7''), (8, ''v8''), (9, ''v9''), (10, ''v10''), (11, ''v11'')]))
     ''k'' 1 = ('''', False)"
  by (simp add: store_eval)

section \<open>Version history\<close>

text \<open>
  Claim C4. After any sequence of n writes to a key that was absent, \<open>History\<close>
  with limit 0 returns \<open>min n MaxVersions\<close> versions, and what \<open>History\<close> returns
  never has a version before one with a larger write timestamp. When the writes have
  strictly increasing clock readings, the values returned are those of the writes, last
  write first, cut to \<open>MaxVersions\<close>: after fifteen writes, \<open>v15\<close> down to \<open>v6\<close>.
  A positive limit cuts the result to its first \<open>limit\<close> versions.
\<close>

theorem History_retention:
  "(data (getShard sum64 s0 key) key = None \<longrightarrow>
      length (Store_History sum64 (Sets sum64 s0 key writes) key 0) = min (length writes) MaxVersions) \<and>
   sorted_wrt (\<lambda>a b. Timestamp b \<le>s Timestamp a) (Store_History sum64 s key 0) \<and>
   (data (getShard sum64 s0 key) key = None \<and> sorted_wrt (<s) (map fst writes) \<longrightarrow>
      map Data (Store_History sum64 (Sets sum64 s0 key writes) key 0) =
        take MaxVersions (rev (map (\<lambda>(now, val, ttlMs). val) writes))) \<and>
   (0 < limit \<longrightarrow>
      Store_History sum64 s key limit = take (nat limit) (Store_History sum64 s key 0))"
proof (intro conjI impI; (elim conjE)?)
  show "sorted_wrt (\<lambda>a b. Timestamp b \<le>s Timestamp a) (Store_History sum64 s key 0)"
    by (simp only: Store_History_chainOf sorted_sort_Slice)
next
  assume "0 < limit"
  then show "Store_History sum64 s key limit = take (nat limit) (Store_History sum64 s key 0)"
    by (rule Store_History_limit)
next
  assume absent: "data (getShard sum64 s0 key) key = None"
  then have c0: "chainOf sum64 s0 key = []" by (simp add: chainOf_def)
  have chain: "chainOf sum64 (Sets sum64 s0 key writes) key = latest (map written writes)"
    by (simp add: chainOf_Sets c0 latest_def)
  show "length (Store_History sum64 (Sets sum64 s0 key writes) key 0) = min (length writes) MaxVersions"
    by (simp add: Store_History_chainOf length_sort_Slice chain length_latest)
  assume incr: "sorted_wrt (<s) (map fst writes)"
  have "sorted_wrt (\<lambda>a b. Timestamp a <s Timestamp b) (map written writes)"
    using incr by (simp add: sorted_wrt_map written_def case_prod_beta)
  then have "sorted_wrt (\<lambda>a b. Timestamp a <s Timestamp b) (latest (map written writes))"
    unfolding latest_def by (rule sorted_wrt_drop)
  then have "Store_History sum64 (Sets sum64 s0 key writes) key 0 = rev (latest (map written writes))"
    by (simp only: Store_History_chainOf chain sort_Slice_increasing)
  also have "\<dots> = take MaxVersions (rev (map written writes))"
    by (simp add: latest_rev)
  finally show "map Data (Store_History sum64 (Sets sum64 s0 key writes) key 0) =
        take MaxVersions (rev (map (\<lambda>(now, val, ttlMs). val) writes))"
    by (simp add: take_map rev_map written_def case_prod_beta comp_def)
qed

lemmas history_eval =
  Store_History_def sort_Slice_def fifteenWrites_def Store_Set_def NewStore_def NewTTLWheel_def
  getShard_def hash_def sum64_sample_def ShardCount_def MaxVersions_def TTLWheel_Add_def Let_def
  word_sless_alt word_sle_eq

theorem History_retention_witness:
  "data (getShard sum64_sample NewStore ''k'') ''k'' = None \<and>
   sorted_wrt (<s) (map fst (fifteenWrites [1, 2, 3, 4, 5, 6, 7, 8, 9, 10, 11, 12, 13, 14, 15])) \<and>
   length (Store_History sum64_sample
     (Sets sum64_sample NewStore ''k''
        (fifteenWrites [1, 2, 3, 4, 5, 6, 7, 8, 9, 10, 11, 12, 13, 14, 15])) ''k'' 0) = 10 \<and>
   map Data (Store_History sum64_sample
     (Sets sum64_sample NewStore ''k''
        (fifteenWrites [1, 2, 3, 4, 5, 6, 7, 8, 9, 10, 11, 12, 13, 14, 15])) ''k'' 0) =
     [''v15'', ''v14'', ''v13'', ''v12'', ''v11'', ''v10'', ''v9'', ''v8'', ''v7'', ''v6''] \<and>
   (0 :: int) < 3 \<and>
   Store_History sum64_sample
     (Sets sum64_sample NewStore ''k''
        (fifteenWrites [1, 2, 3, 4, 5, 6, 7, 8, 9, 10, 11, 12, 13, 14, 15])) ''k'' 3 =
   take (nat 3) (Store_History sum64_sample
     (Sets sum64_sample NewStore ''k''
        (fifteenWrites [1, 2, 3, 4, 5, 6, 7, 8, 9, 10, 11, 12, 13, 14, 15])) ''k'' 0)"
  using History_retention [of sum64_sample NewStore "''k''"
          "fifteenWrites [1, 2, 3, 4, 5, 6, 7, 8, 9, 10, 11, 12, 13, 14, 15]"
          "Sets sum64_sample NewStore ''k''
             (fifteenWrites [1, 2, 3, 4, 5, 6, 7, 8, 9, 10, 11, 12, 13, 14, 15])" 3]
  by (simp add: fifteenWrites_def MaxVersions_def NewStore_def getShard_def word_sless_alt)

theorem History_retention_counterexample:
  "map Data (Store_History sum64_sample
     (Sets sum64_sample NewStore ''k''
        (fifteenWrites [7, 7, 7, 7, 7, 7, 7, 7, 7, 7, 7, 7, 7, 7, 7])) ''k'' 0) =
     [''v6'', ''v7'', ''v8'', ''v9'', ''v10'', ''v11'', ''v12'', ''v13'', ''v14'', ''v15'']"
  by (simp add: history_eval)

section \<open>The TTL wheel and the chain tail\<close>

text \<open>
  Claim C2. \<open>Set\<close> with TTL 0 leaves the TTL wheel as it is: an entry that an
  earlier write made for the key stays. After any sequence of store operations from the
  empty store, every key that has an entry in the TTL wheel has a non-empty chain, and
  the entry equals the expiry of the chain's tail unless the tail has expiry 0.
\<close>

theorem wheel_entry_tracks_tail:
  "ttlWheel (Store_Set sum64 s now key val 0) = ttlWheel s \<and>
   wheelTracksTail sum64 (run sum64 NewStore ops)"
  by (simp add: Store_Set_def Let_def wheelTracksTail_run wheelTracksTail_NewStore)

lemmas run_eval =
  expireKeys_def TTLWheel_GetExpired_def Store_Set_def Store_Expire_def Store_Delete_def
  NewStore_def NewTTLWheel_def getShard_def hash_def sum64_sample_def ShardCount_def
  MaxVersions_def TTLWheel_Add_def TTLWheel_Remove_def Let_def word_sless_alt word_sle_eq

theorem wheel_entry_tracks_tail_witness:
  "entries (ttlWheel (run sum64_sample NewStore
      [(5, OpSet ''k'' ''v'' 1000), (6, OpSet ''j'' ''w'' 0), (7, OpExpire ''j'' 50),
       (8, OpExpireKeys)])) ''k'' = Some 1005 \<and>
   (\<exists>history.
      data (getShard sum64_sample (run sum64_sample NewStore
        [(5, OpSet ''k'' ''v'' 1000), (6, OpSet ''j'' ''w'' 0), (7, OpExpire ''j'' 50),
         (8, OpExpireKeys)]) ''k'') ''k'' = Some history \<and>
      Versions history \<noteq> [] \<and> TTL (last (Versions history)) = 1005)"
  using wheel_entry_tracks_tail [of sum64_sample NewStore 0 "''k''" "''v''"
          "[(5, OpSet ''k'' ''v'' 1000), (6, OpSet ''j'' ''w'' 0), (7, OpExpire ''j'' 50),
            (8, OpExpireKeys)]"]
  by (simp add: wheelTracksTail_def run_eval)

theorem wheel_entry_tracks_tail_counterexample:
  "entries (ttlWheel (run sum64_sample NewStore
      [(5, OpSet ''k'' ''v'' 1000), (6, OpSet ''k'' ''w'' 0)])) ''k'' = Some 1005 \<and>
   data (getShard sum64_sample (run sum64_sample NewStore
      [(5, OpSet ''k'' ''v'' 1000), (6, OpSet ''k'' ''w'' 0)]) ''k'') ''k'' =
     Some \<lparr>Versions = [\<lparr>Data = ''v'', Timestamp = 5, TTL = 1005\<rparr>,
                        \<lparr>Data = ''w'', Timestamp = 6, TTL = 0\<rparr>]\<rparr>"
  by (simp add: run_eval)

section \<open>The EXPIRE command\<close>

text \<open>
  Claim C9. For a key with at least one version and a seconds argument that parses as a
  64-bit decimal, negative or not, EXPIRE answers Integer 1 and sets the expiry of the
  tail to \<open>now + seconds * 1000\<close> in wrapping 64-bit arithmetic; there is no sign
  check. A negative argument that does not overflow puts the expiry before a
  non-negative clock reading. Afterwards, at a clock reading at or after the tail's write
  and the expiry: when the expiry is positive, \<open>TTL\<close> returns -2 and \<open>Get\<close>
  returns not-found; when the expiry is negative, \<open>TTL\<close> returns -2 and \<open>Get\<close>
  still returns the tail's value, since reads honour positive expiries only; when the
  expiry is 0, the key has no expiration and \<open>TTL\<close> returns -1.
\<close>

theorem handleExpire_unchecked_sign:
  "ParseInt str = Some seconds \<and> chainOf sum64 s key \<noteq> [] \<longrightarrow>
     (let s' = snd (handleExpire sum64 s now [key, str]);
          tail = last (chainOf sum64 s key);
          expiry = now + seconds * 1000
      in fst (handleExpire sum64 s now [key, str]) = RESPValue Integer [] 1 [] False \<and>
         chainOf sum64 s' key = butlast (chainOf sum64 s key) @ [tail\<lparr>TTL := expiry\<rparr>] \<and>
         (seconds <s 0 \<and> - 9223372036854775 \<le>s seconds \<and> 0 \<le>s now \<longrightarrow> expiry <s now) \<and>
         (expiry \<noteq> 0 \<and> expiry \<le>s now' \<longrightarrow> Store_TTL sum64 s' now' key = - 2) \<and>
         (expiry = 0 \<longrightarrow> Store_TTL sum64 s' now' key = - 1) \<and>
         (0 <s expiry \<and> expiry \<le>s now' \<and> Timestamp tail \<le>s now' \<longrightarrow>
            Store_Get sum64 s' now' key = ('''', False)) \<and>
         (expiry \<le>s 0 \<and> Timestamp tail \<le>s now' \<longrightarrow>
            Store_Get sum64 s' now' key = (Data tail, True)))"
proof (intro impI, elim conjE)
  assume p: "ParseInt str = Some seconds" and c: "chainOf sum64 s key \<noteq> []"
  define s' where "s' = fst (Store_Expire sum64 s now key (seconds * 1000))"
  have h: "handleExpire sum64 s now [key, str] = (RESPValue Integer [] 1 [] False, s')"
    using p c Store_Expire_ok [of sum64 s now key "seconds * 1000"]
    by (simp add: handleExpire_def s'_def case_prod_beta)
  have ch: "chainOf sum64 s' key =
      butlast (chainOf sum64 s key) @ [(last (chainOf sum64 s key))\<lparr>TTL := now + seconds * 1000\<rparr>]"
    unfolding s'_def using c by (rule chainOf_Store_Expire)
  show "let s' = snd (handleExpire sum64 s now [key, str]);
          tail = last (chainOf sum64 s key);
          expiry = now + seconds * 1000
      in fst (handleExpire sum64 s now [key, str]) = RESPValue Integer [] 1 [] False \<and>
         chainOf sum64 s' key = butlast (chainOf sum64 s key) @ [tail\<lparr>TTL := expiry\<rparr>] \<and>
         (seconds <s 0 \<and> - 9223372036854775 \<le>s seconds \<and> 0 \<le>s now \<longrightarrow> expiry <s now) \<and>
         (expiry \<noteq> 0 \<and> expiry \<le>s now' \<longrightarrow> Store_TTL sum64 s' now' key = - 2) \<and>
         (expiry = 0 \<longrightarrow> Store_TTL sum64 s' now' key = - 1) \<and>
         (0 <s expiry \<and> expiry \<le>s now' \<and> Timestamp tail \<le>s now' \<longrightarrow>
            Store_Get sum64 s' now' key = ('''', False)) \<and>
         (expiry \<le>s 0 \<and> Timestamp tail \<le>s now' \<longrightarrow>
            Store_Get sum64 s' now' key = (Data tail, True))"
    unfolding Let_def h fst_conv snd_conv
    using Store_Get_tail [of sum64 s' key now']
    by (auto simp: ch Store_TTL_chainOf negative_seconds_past signed.not_less [symmetric])
qed

lemmas expire_eval =
  handleExpire_def ParseInt_def parseSigned_def isDigit_def digitsValue_def digitVal_def
  chainOf_def Store_TTL_def Store_Set_def Store_Expire_def Store_GetAt_def Store_Get_def
  NewStore_def NewTTLWheel_def getShard_def hash_def sum64_sample_def ShardCount_def
  MaxVersions_def TTLWheel_Add_def Let_def word_sless_alt word_sle_eq

theorem handleExpire_unchecked_sign_counterexample:
  "fst (handleExpire sum64_sample
          (Store_Set sum64_sample NewStore 1700000000000 ''k'' ''v'' 0) 1700000000000
          [''k'', ''-2000000000'']) = RESPValue Integer [] 1 [] False \<and>
   chainOf sum64_sample (snd (handleExpire sum64_sample
          (Store_Set sum64_sample NewStore 1700000000000 ''k'' ''v'' 0) 1700000000000
          [''k'', ''-2000000000''])) ''k'' =
     [\<lparr>Data = ''v'', Timestamp = 1700000000000, TTL = - 300000000000\<rparr>] \<and>
   Store_Get sum64_sample (snd (handleExpire sum64_sample
          (Store_Set sum64_sample NewStore 1700000000000 ''k'' ''v'' 0) 1700000000000
          [''k'', ''-2000000000''])) 1700000000001 ''k'' = (''v'', True)"
  by (simp add: expire_eval)

theorem handleExpire_unchecked_sign_witness:
  "ParseInt ''-5'' = Some (- 5) \<and>
   chainOf sum64_sample (Store_Set sum64_sample NewStore 1700000000000 ''k'' ''v'' 0) ''k'' \<noteq> [] \<and>
   fst (handleExpire sum64_sample
          (Store_Set sum64_sample NewStore 1700000000000 ''k'' ''v'' 0) 1700000000000
          [''k'', ''-5'']) = RESPValue Integer [] 1 [] False \<and>
   (- 5 :: int64) <s 0 \<and> (- 9223372036854775 :: int64) \<le>s - 5 \<and> (0 :: int64) \<le>s 1700000000000 \<and>
   (1700000000000 + (- 5) * 1000 :: int64) <s 1700000000000 \<and>
   (0 :: int64) <s 1700000000000 + (- 5) * 1000 \<and>
   (1700000000000 + (- 5) * 1000 :: int64) \<le>s 1700000000001 \<and>
   Store_TTL sum64_sample (snd (handleExpire sum64_sample
          (Store_Set sum64_sample NewStore 1700000000000 ''k'' ''v'' 0) 1700000000000
          [''k'', ''-5''])) 1700000000001 ''k'' = - 2 \<and>
   Store_Get sum64_sample (snd (handleExpire sum64_sample
          (Store_Set sum64_sample NewStore 1700000000000 ''k'' ''v'' 0) 1700000000000
          [''k'', ''-5''])) 1700000000001 ''k'' = ('''', False) \<and>
   ParseInt ''-2000000000'' = Some (- 2000000000) \<and>
   (1700000000000 + (- 2000000000) * 1000 :: int64) \<le>s 0 \<and>
   Store_Get sum64_sample (snd (handleExpire sum64_sample
          (Store_Set sum64_sample NewStore 1700000000000 ''k'' ''v'' 0) 1700000000000
          [''k'', ''-2000000000''])) 1700000000001 ''k'' = (''v'', True) \<and>
   ParseInt ''-1700000000'' = Some (- 1700000000) \<and>
   (1700000000000 + (- 1700000000) * 1000 :: int64) = 0 \<and>
   Store_TTL sum64_sample (snd (handleExpire sum64_sample
          (Store_Set sum64_sample NewStore 1700000000000 ''k'' ''v'' 0) 1700000000000
          [''k'', ''-1700000000''])) 1700000000001 ''k'' = - 1"
  using handleExpire_unchecked_sign [of "''-5''" "- 5" sum64_sample
          "Store_Set sum64_sample NewStore 1700000000000 ''k'' ''v'' 0" "''k''"
          1700000000000 1700000000001]
        handleExpire_unchecked_sign [of "''-2000000000''" "- 2000000000" sum64_sample
          "Store_Set sum64_sample NewStore 1700000000000 ''k'' ''v'' 0" "''k''"
          1700000000000 1700000000001]
        handleExpire_unchecked_sign [of "''-1700000000''" "- 1700000000" sum64_sample
          "Store_Set sum64_sample NewStore 1700000000000 ''k'' ''v'' 0" "''k''"
          1700000000000 1700000000001]
  by (simp add: expire_eval)

section \<open>The HIST command\<close>

text \<open>
  Claim C10. For a key alone, or a key and a limit that parses as a non-negative
  integer, HIST answers with a non-null Array of twice as many elements as
  \<open>History\<close> returns versions: element \<open>2 * i\<close> is the Integer write timestamp of
  version \<open>i\<close> and element \<open>2 * i + 1\<close> the BulkString of its value, in the order
  of \<open>History\<close>, which never puts a version before one with a larger write
  timestamp. When the write timestamps of the chain are strictly increasing, that
  order is the chain's from its tail backwards, the newest pair first, cut to a positive
  limit. For a key that does not exist the answer is the empty Array, written to the
  wire as \<open>*0\\r\\n\<close>, and not the null Array.
\<close>

theorem handleHist_response:
  "(args = [key] \<and> limit = 0 \<or> args = [key, str] \<and> Atoi str = Some limit \<and> 0 \<le> limit \<longrightarrow>
      Type (handleHist sum64 s args) = Array \<and> \<not> Null (handleHist sum64 s args) \<and>
      length (Array' (handleHist sum64 s args)) = 2 * length (Store_History sum64 s key limit) \<and>
      (\<forall>i < length (Store_History sum64 s key limit).
         Array' (handleHist sum64 s args) ! (2 * i) =
           RESPValue Integer [] (Timestamp (Store_History sum64 s key limit ! i)) [] False \<and>
         Array' (handleHist sum64 s args) ! (2 * i + 1) =
           RESPValue BulkString (Data (Store_History sum64 s key limit ! i)) 0 [] False) \<and>
      sorted_wrt (\<lambda>a b. Timestamp b \<le>s Timestamp a) (Store_History sum64 s key limit) \<and>
      (sorted_wrt (\<lambda>a b. Timestamp a <s Timestamp b) (chainOf sum64 s key) \<longrightarrow>
         Store_History sum64 s key limit =
           (if 0 < limit then take (nat limit) (rev (chainOf sum64 s key))
            else rev (chainOf sum64 s key)))) \<and>
   (data (getShard sum64 s key) key = None \<longrightarrow>
      handleHist sum64 s [key] = RESPValue Array [] 0 [] False \<and>
      WriteValue (handleHist sum64 s [key]) = Inr (''*0'' @ [CR, LF]))"
  by (rule conjI, (rule impI, erule handleHist_pairs), (rule impI, erule handleHist_missing))

lemmas hist_eval =
  handleHist_def Atoi_def parseSigned_def isDigit_def digitsValue_def digitVal_def
  Store_History_def sort_Slice_def Store_Set_def NewStore_def NewTTLWheel_def
  getShard_def hash_def sum64_sample_def ShardCount_def MaxVersions_def TTLWheel_Add_def Let_def
  word_sless_alt word_sle_eq

theorem handleHist_response_witness:
  "Atoi ''2'' = Some 2 \<and> (0 :: int) \<le> 2 \<and>
   chainOf sum64_sample
     (Sets sum64_sample NewStore ''c'' [(10, ''1'', 0), (20, ''2'', 0), (30, ''3'', 0)]) ''c'' =
     [\<lparr>Data = ''1'', Timestamp = 10, TTL = 0\<rparr>, \<lparr>Data = ''2'', Timestamp = 20, TTL = 0\<rparr>,
      \<lparr>Data = ''3'', Timestamp = 30, TTL = 0\<rparr>] \<and>
   sorted_wrt (\<lambda>a b. Timestamp a <s Timestamp b) (chainOf sum64_sample
     (Sets sum64_sample NewStore ''c'' [(10, ''1'', 0), (20, ''2'', 0), (30, ''3'', 0)]) ''c'') \<and>
   Store_History sum64_sample
     (Sets sum64_sample NewStore ''c'' [(10, ''1'', 0), (20, ''2'', 0), (30, ''3'', 0)]) ''c'' 2 =
     [\<lparr>Data = ''3'', Timestamp = 30, TTL = 0\<rparr>, \<lparr>Data = ''2'', Timestamp = 20, TTL = 0\<rparr>] \<and>
   handleHist sum64_sample
     (Sets sum64_sample NewStore ''c'' [(10, ''1'', 0), (20, ''2'', 0), (30, ''3'', 0)])
     [''c'', ''2''] =
     RESPValue Array [] 0
       [RESPValue Integer [] 30 [] False, RESPValue BulkString ''3'' 0 [] False,
        RESPValue Integer [] 20 [] False, RESPValue BulkString ''2'' 0 [] False] False \<and>
   data (getShard sum64_sample NewStore ''missing'') ''missing'' = None \<and>
   WriteValue (handleHist sum64_sample NewStore [''missing'']) = Inr (''*0'' @ [CR, LF])"
  using handleHist_response [of "[''c'', ''2'']" "''c''" 2 "''2''" sum64_sample
          "Sets sum64_sample NewStore ''c'' [(10, ''1'', 0), (20, ''2'', 0), (30, ''3'', 0)]"]
        handleHist_response [of "[''missing'']" "''missing''" 0 "''''" sum64_sample NewStore]
  by (simp add: hist_eval chainOf_def)

theorem handleHist_response_counterexample:
  "handleHist sum64_sample
     (Sets sum64_sample NewStore ''k'' [(7, ''old'', 0), (7, ''new'', 0)]) [''k'', ''1''] =
     RESPValue Array [] 0
       [RESPValue Integer [] 7 [] False, RESPValue BulkString ''old'' 0 [] False] False \<and>
   Store_Get sum64_sample
     (Sets sum64_sample NewStore ''k'' [(7, ''old'', 0), (7, ''new'', 0)]) 7 ''k'' = (''new'', True)"
  by (simp add: hist_eval Store_Get_def Store_GetAt_def)

section \<open>Bulk strings\<close>

text \<open>
  Claim C8. For every payload \<open>p\<close> and every two bytes \<open>x\<close>, \<open>y\<close> after it, the
  reader accepts \<open>$\<close>, the decimal length of \<open>p\<close>, \<open>\\r\\n\<close>, \<open>p\<close>, \<open>x\<close>,
  \<open>y\<close> and returns the BulkString \<open>p\<close>: the two bytes after the payload are
  consumed and never compared with \<open>\\r\\n\<close>. The length of \<open>p\<close> plus two fits
  Go's \<open>int\<close>, as the length of every Go slice does.
\<close>

theorem bulk_terminator_unchecked:
  "int (length p) + 2 < 2 ^ 63 \<longrightarrow>
     Read (''$'' @ formatInt (int (length p)) @ [CR, LF] @ p @ [x, y] @ rest) =
       Inr (RESPValue BulkString p 0 [] False, rest)"
  using readBulkString_payload [of p x y rest] by simp

theorem bulk_terminator_unchecked_witness:
  "int (length ''foo'') + 2 < 2 ^ 63 \<and>
   ''$'' @ formatInt (int (length ''foo'')) @ [CR, LF] @ ''foo'' @ [CHR ''X'', CHR ''Y''] @ [] =
     ''$3'' @ [CR, LF] @ ''fooXY'' \<and>
   Read (''$3'' @ [CR, LF] @ ''fooXY'') = Inr (RESPValue BulkString ''foo'' 0 [] False, [])"
  using bulk_terminator_unchecked [of "''foo''" "CHR ''X''" "CHR ''Y''" "[]"]
  by (simp add: format_eval)

section \<open>Round trip\<close>

text \<open>
  Claim C5. Every well-formed value serializes, and reading the bytes written gives the
  value back, the null BulkString and the null Array included. A SimpleString or an
  Error whose line holds a line feed is outside this: the reader ends the line at the
  first line feed.
\<close>

theorem wire_round_trip:
  "wellFormed v \<longrightarrow>
     (\<exists>out. WriteValue v = Inr out \<and> (\<forall>rest. Read (out @ rest) = Inr (v, rest)))"
proof
  assume "wellFormed v"
  then have r: "roundTrips v" by (rule wellFormed_roundTrips)
  then obtain out where o: "WriteValue v = Inr out"
    unfolding roundTrips_def by blast
  have "Read (out @ rest) = Inr (v, rest)" for rest
    using r o unfolding roundTrips_def by (metis sum.inject(2))
  with o show "\<exists>out. WriteValue v = Inr out \<and> (\<forall>rest. Read (out @ rest) = Inr (v, rest))"
    by blast
qed

lemmas codec_eval =
  WriteSimpleString_def WriteError_def WriteInteger_def WriteBulkString_def
  WriteNullBulkString_def WriteNullArray_def readLine_def readBulkString_def readInteger_def
  readSimpleString_def readError_def Atoi_def ParseInt_def parseSigned_def isDigit_def
  digitsValue_def digitVal_def ReadFull_def

theorem wire_round_trip_witness:
  "wellFormed (RESPValue Array [] 0
     [RESPValue SimpleString ''OK'' 0 [] False, RESPValue Integer [] (- 12) [] False,
      RESPValue BulkString ''foo'' 0 [] False, RESPValue BulkString [] 0 [] True] False) \<and>
   WriteValue (RESPValue Array [] 0
     [RESPValue SimpleString ''OK'' 0 [] False, RESPValue Integer [] (- 12) [] False,
      RESPValue BulkString ''foo'' 0 [] False, RESPValue BulkString [] 0 [] True] False) =
     Inr (''*4'' @ [CR, LF] @ ''+OK'' @ [CR, LF] @ '':-12'' @ [CR, LF] @
          ''$3'' @ [CR, LF] @ ''foo'' @ [CR, LF] @ ''$-1'' @ [CR, LF]) \<and>
   Read (''*4'' @ [CR, LF] @ ''+OK'' @ [CR, LF] @ '':-12'' @ [CR, LF] @
         ''$3'' @ [CR, LF] @ ''foo'' @ [CR, LF] @ ''$-1'' @ [CR, LF]) =
     Inr (RESPValue Array [] 0
       [RESPValue SimpleString ''OK'' 0 [] False, RESPValue Integer [] (- 12) [] False,
        RESPValue BulkString ''foo'' 0 [] False, RESPValue BulkString [] 0 [] True] False, [])"
  using wire_round_trip [of "RESPValue Array [] 0
     [RESPValue SimpleString ''OK'' 0 [] False, RESPValue Integer [] (- 12) [] False,
      RESPValue BulkString ''foo'' 0 [] False, RESPValue BulkString [] 0 [] True] False"]
  by (simp add: codec_eval format_eval)

theorem wire_round_trip_counterexample:
  "WriteValue (RESPValue SimpleString (''a'' @ [LF] @ ''b'') 0 [] False) =
     Inr (''+a'' @ [LF] @ ''b'' @ [CR, LF]) \<and>
   Read (''+a'' @ [LF] @ ''b'' @ [CR, LF]) =
     Inr (RESPValue SimpleString ''a'' 0 [] False, ''b'' @ [CR, LF])"
  by (simp add: codec_eval)

end
